theory Spec2Isabelle
  imports Complex_Main "HOL-Library.Monad_Syntax"
begin

section \<open>The transform interaction of mapfish-print-manager\<close>

text \<open>
  A shallow embedding of \<^verbatim>\<open>src/interaction/InteractionTransform.js\<close>: the class
  \<^verbatim>\<open>OlInteractionTransform\<close>, its handle overlay (\<^verbatim>\<open>drawSketch_\<close>), its selection
  (\<^verbatim>\<open>select\<close>, \<^verbatim>\<open>setActive\<close>) and its pointer handlers (\<^verbatim>\<open>handleDownEvent_\<close>,
  \<^verbatim>\<open>handleDragEvent_\<close>, \<^verbatim>\<open>handleUpEvent_\<close>).

  The fields of the instance are the fields of the record \<open>state\<close>; a field \<^verbatim>\<open>this.x_\<close>
  of the source is the field \<open>this_x\<close> here. A method takes the state and returns the
  new one. An uncaught \<^verbatim>\<open>TypeError\<close> (reading a property of \<^verbatim>\<open>null\<close> or
  \<^verbatim>\<open>undefined\<close>) is the result \<open>None\<close>; the state the instance is left in after
  such an exception is not modelled. Styles, cursors and the listeners the constructor
  registers on features, layers and property changes (each of which only calls
  \<^verbatim>\<open>drawSketch_\<close> again) are outside the model, and with them the options
  \<^verbatim>\<open>layers\<close> and \<^verbatim>\<open>features\<close>: with such a listener the overlay is redrawn whenever
  a geometry changes, so what the model says of the overlay after a drag event holds
  for an interaction built without those options. No property below speaks of the
  overlay after a drag event.
\<close>

subsection \<open>Numbers\<close>

text \<open>
  A JavaScript number is a finite value or one of \<^verbatim>\<open>Infinity\<close>, \<^verbatim>\<open>-Infinity\<close>,
  \<^verbatim>\<open>NaN\<close>. Finite values are real numbers here: the rounding of IEEE doubles and the
  sign of zero are not modelled. No general property below rests on a law of real
  arithmetic, and the scenarios compute with values that binary64 represents and
  computes exactly.
\<close>

datatype num = Fin real | PosInf | NegInf | NaN

fun js_neg :: "num \<Rightarrow> num" where
  "js_neg (Fin a) = Fin (- a)"
| "js_neg PosInf = NegInf"
| "js_neg NegInf = PosInf"
| "js_neg NaN = NaN"

instantiation num :: "{plus, minus, times, inverse}"
begin

fun plus_num :: "num \<Rightarrow> num \<Rightarrow> num" where
  "plus_num NaN _ = NaN"
| "plus_num _ NaN = NaN"
| "plus_num PosInf NegInf = NaN"
| "plus_num NegInf PosInf = NaN"
| "plus_num PosInf _ = PosInf"
| "plus_num _ PosInf = PosInf"
| "plus_num NegInf _ = NegInf"
| "plus_num _ NegInf = NegInf"
| "plus_num (Fin a) (Fin b) = Fin (a + b)"

definition minus_num :: "num \<Rightarrow> num \<Rightarrow> num" where
  "minus_num a b = a + js_neg b"

fun times_num :: "num \<Rightarrow> num \<Rightarrow> num" where
  "times_num NaN _ = NaN"
| "times_num _ NaN = NaN"
| "times_num (Fin a) (Fin b) = Fin (a * b)"
| "times_num (Fin a) PosInf = (if a = 0 then NaN else if 0 < a then PosInf else NegInf)"
| "times_num (Fin a) NegInf = (if a = 0 then NaN else if 0 < a then NegInf else PosInf)"
| "times_num PosInf (Fin b) = (if b = 0 then NaN else if 0 < b then PosInf else NegInf)"
| "times_num NegInf (Fin b) = (if b = 0 then NaN else if 0 < b then NegInf else PosInf)"
| "times_num PosInf PosInf = PosInf"
| "times_num PosInf NegInf = NegInf"
| "times_num NegInf PosInf = NegInf"
| "times_num NegInf NegInf = PosInf"

fun divide_num :: "num \<Rightarrow> num \<Rightarrow> num" where
  "divide_num NaN _ = NaN"
| "divide_num _ NaN = NaN"
| "divide_num (Fin a) (Fin b) =
     (if b = 0 then (if a = 0 then NaN else if 0 < a then PosInf else NegInf)
      else Fin (a / b))"
| "divide_num (Fin a) _ = Fin 0"
| "divide_num PosInf (Fin b) = (if 0 \<le> b then PosInf else NegInf)"
| "divide_num NegInf (Fin b) = (if 0 \<le> b then NegInf else PosInf)"
| "divide_num _ _ = NaN"

definition inverse_num :: "num \<Rightarrow> num" where
  "inverse_num a = Fin 1 div a"

instance ..

end

text \<open>\<^verbatim>\<open>Math.min\<close> and \<^verbatim>\<open>Math.max\<close> of two numbers: \<^verbatim>\<open>NaN\<close> when either is.\<close>

fun Math_min :: "num \<Rightarrow> num \<Rightarrow> num" where
  "Math_min NaN _ = NaN"
| "Math_min _ NaN = NaN"
| "Math_min NegInf _ = NegInf"
| "Math_min _ NegInf = NegInf"
| "Math_min PosInf b = b"
| "Math_min a PosInf = a"
| "Math_min (Fin a) (Fin b) = Fin (min a b)"

fun Math_max :: "num \<Rightarrow> num \<Rightarrow> num" where
  "Math_max NaN _ = NaN"
| "Math_max _ NaN = NaN"
| "Math_max PosInf _ = PosInf"
| "Math_max _ PosInf = PosInf"
| "Math_max NegInf b = b"
| "Math_max a NegInf = a"
| "Math_max (Fin a) (Fin b) = Fin (max a b)"

text \<open>The operator \<^verbatim>\<open>!=\<close> on numbers: \<^verbatim>\<open>NaN\<close> differs from everything.\<close>

definition js_neq :: "num \<Rightarrow> num \<Rightarrow> bool" where
  "js_neq a b = (a = NaN \<or> b = NaN \<or> a \<noteq> b)"

text \<open>The operator \<^verbatim>\<open><\<close> on numbers: false when either side is \<^verbatim>\<open>NaN\<close>.\<close>

fun js_lt :: "num \<Rightarrow> num \<Rightarrow> bool" where
  "js_lt NaN _ = False"
| "js_lt _ NaN = False"
| "js_lt (Fin a) (Fin b) = (a < b)"
| "js_lt (Fin a) PosInf = True"
| "js_lt (Fin a) NegInf = False"
| "js_lt NegInf NegInf = False"
| "js_lt NegInf _ = True"
| "js_lt PosInf _ = False"

text \<open>
  Modelled from the spec: \<^verbatim>\<open>Math.atan2\<close> is a built-in of the language, not code
  of the repository; the spec uses it for the angle from the centre to the pointer.
  The first argument is the ordinate.
\<close>

fun Math_atan2 :: "num \<Rightarrow> num \<Rightarrow> num" where
  "Math_atan2 NaN _ = NaN"
| "Math_atan2 _ NaN = NaN"
| "Math_atan2 (Fin y) (Fin x) =
     Fin (if 0 < x then arctan (y / x)
          else if x < 0 then (if 0 \<le> y then arctan (y / x) + pi else arctan (y / x) - pi)
          else if 0 < y then pi / 2 else if y < 0 then - pi / 2 else 0)"
| "Math_atan2 (Fin y) PosInf = Fin 0"
| "Math_atan2 (Fin y) NegInf = Fin (if 0 \<le> y then pi else - pi)"
| "Math_atan2 PosInf (Fin x) = Fin (pi / 2)"
| "Math_atan2 PosInf PosInf = Fin (pi / 4)"
| "Math_atan2 PosInf NegInf = Fin (3 * pi / 4)"
| "Math_atan2 NegInf (Fin x) = Fin (- pi / 2)"
| "Math_atan2 NegInf PosInf = Fin (- pi / 4)"
| "Math_atan2 NegInf NegInf = Fin (- 3 * pi / 4)"

text \<open>
  Modelled from the spec: \<^verbatim>\<open>Math.cos\<close> and \<^verbatim>\<open>Math.sin\<close>, built-ins of the language
  that the rotation primitive of the geometry uses.
\<close>

fun Math_cos :: "num \<Rightarrow> num" where
  "Math_cos (Fin a) = Fin (cos a)"
| "Math_cos _ = NaN"

fun Math_sin :: "num \<Rightarrow> num" where
  "Math_sin (Fin a) = Fin (sin a)"
| "Math_sin _ = NaN"

text \<open>
  Reading and writing an array of numbers by index. Reading past the end gives
  \<^verbatim>\<open>undefined\<close>, which arithmetic turns into \<^verbatim>\<open>NaN\<close>; writing past the end
  extends the array (the holes read as \<^verbatim>\<open>undefined\<close>).
\<close>

definition js_nth :: "num list \<Rightarrow> nat \<Rightarrow> num" where
  "js_nth xs i = (if i < length xs then xs ! i else NaN)"

definition js_set :: "num list \<Rightarrow> nat \<Rightarrow> num \<Rightarrow> num list" where
  "js_set xs i v =
     (if i < length xs then xs[i := v] else xs @ replicate (i - length xs) NaN @ [v])"

text \<open>Reading an array of any kind by index: \<open>None\<close> is \<^verbatim>\<open>undefined\<close>.\<close>

definition nth_opt :: "'a list \<Rightarrow> nat \<Rightarrow> 'a option" where
  "nth_opt xs i = (if i < length xs then Some (xs ! i) else None)"

text \<open>\<^verbatim>\<open>undefined\<close> in arithmetic is \<^verbatim>\<open>NaN\<close>.\<close>

definition ToNumber :: "num option \<Rightarrow> num" where
  "ToNumber v = (case v of None \<Rightarrow> NaN | Some a \<Rightarrow> a)"

text \<open>A string, or \<^verbatim>\<open>undefined\<close>, used as a condition: the empty string is falsy.\<close>

definition truthy_str :: "string option \<Rightarrow> bool" where
  "truthy_str v = (case v of None \<Rightarrow> False | Some s \<Rightarrow> s \<noteq> [])"

subsection \<open>Geometries\<close>

text \<open>
  A coordinate and a pixel are arrays \<^verbatim>\<open>[x, y]\<close>. A geometry is what the source uses
  of an OpenLayers simple geometry: its type name, its flat coordinate array and the
  stride of that array (2 for the layout XY, 3 or 4 with Z or M).
\<close>

type_synonym coord = "num \<times> num"

type_synonym extent = "num \<times> num \<times> num \<times> num"

record geometry =
  getType :: string
  flatCoordinates :: "num list"
  stride :: nat

text \<open>
  The geometry and extent primitives of OpenLayers that the source calls are not code
  of the repository; the spec lists them as consumed from the geometry representation
  (clone, rotate, translate, coordinate-transform-apply, extent computation, extent to
  polygon, polygon to ring, type introspection). Each is modelled below. A clone is the
  value itself. OpenLayers keeps \<open>2 \<le> stride\<close> and the length of the flat array a
  multiple of the stride.
\<close>

text \<open>
  Modelled from the spec: the offsets of the vertices in a flat array of length \<open>n\<close>,
  as the loops of the flat-array primitives visit them.
\<close>

definition offsets :: "nat \<Rightarrow> nat \<Rightarrow> nat list" where
  "offsets n st = (if st = 0 then [] else map (\<lambda>k. k * st) [0..<(n + st - 1) div st])"

text \<open>Modelled from the spec: the empty extent, from which an extent is grown.\<close>

definition createEmpty :: extent where
  "createEmpty = (PosInf, PosInf, NegInf, NegInf)"

text \<open>
  Modelled from the spec: growing an extent by a vertex of a flat array, with
  \<^verbatim>\<open>Math.min\<close> and \<^verbatim>\<open>Math.max\<close>.
\<close>

definition extendXY :: "extent \<Rightarrow> coord \<Rightarrow> extent" where
  "extendXY e c =
     (case e of (minx, miny, maxx, maxy) \<Rightarrow>
        (Math_min minx (fst c), Math_min miny (snd c),
         Math_max maxx (fst c), Math_max maxy (snd c)))"

text \<open>
  Modelled from the spec: growing an extent by a coordinate, with comparisons, as
  \<^verbatim>\<open>OlExtent.boundingExtent\<close> does.
\<close>

definition extendCoordinate :: "extent \<Rightarrow> coord \<Rightarrow> extent" where
  "extendCoordinate e c =
     (case e of (minx, miny, maxx, maxy) \<Rightarrow>
        (if js_lt (fst c) minx then fst c else minx,
         if js_lt (snd c) miny then snd c else miny,
         if js_lt maxx (fst c) then fst c else maxx,
         if js_lt maxy (snd c) then snd c else maxy))"

text \<open>Modelled from the spec: \<^verbatim>\<open>OlExtent.boundingExtent(coordinates)\<close>.\<close>

definition boundingExtent :: "coord list \<Rightarrow> extent" where
  "boundingExtent cs = foldl extendCoordinate createEmpty cs"

text \<open>
  Modelled from the spec: \<^verbatim>\<open>geometry.getExtent()\<close>. The flat array of a circle
  holds its centre and the point at its right, and its extent is the square around the
  centre with the radius as half side; the extent of every other simple geometry is
  the bounding box of the vertices of the flat array.
\<close>

definition getExtent :: "geometry \<Rightarrow> extent" where
  "getExtent g =
     (if getType g = ''Circle'' then
        (let radius = js_nth (flatCoordinates g) (stride g) - js_nth (flatCoordinates g) 0
         in (js_nth (flatCoordinates g) 0 - radius, js_nth (flatCoordinates g) 1 - radius,
             js_nth (flatCoordinates g) 0 + radius, js_nth (flatCoordinates g) 1 + radius))
      else
        foldl extendXY createEmpty
          (map (\<lambda>j. (js_nth (flatCoordinates g) j, js_nth (flatCoordinates g) (j + 1)))
             (offsets (length (flatCoordinates g)) (stride g))))"

text \<open>Modelled from the spec: \<^verbatim>\<open>OlExtent.getCenter(extent)\<close>.\<close>

definition getCenter :: "extent \<Rightarrow> coord" where
  "getCenter e =
     (case e of (minx, miny, maxx, maxy) \<Rightarrow> ((minx + maxx) / Fin 2, (miny + maxy) / Fin 2))"

text \<open>
  Modelled from the spec: \<^verbatim>\<open>OlGeomPolygon.fromExtent(extent)\<close>. The ring is in the
  order OpenLayers produces it, which is the order the cursor table of the source
  relies on: bottom-left, top-left, top-right, bottom-right, and the first corner
  again.
\<close>

definition fromExtent :: "extent \<Rightarrow> geometry" where
  "fromExtent e =
     (case e of (minx, miny, maxx, maxy) \<Rightarrow>
        \<lparr>getType = ''Polygon'',
         flatCoordinates = [minx, miny, minx, maxy, maxx, maxy, maxx, miny, minx, miny],
         stride = 2\<rparr>)"

text \<open>
  Modelled from the spec: \<^verbatim>\<open>getCoordinates()[0]\<close> of a polygon with one ring, the
  list of its vertices.
\<close>

definition ring :: "geometry \<Rightarrow> coord list" where
  "ring g =
     map (\<lambda>j. (js_nth (flatCoordinates g) j, js_nth (flatCoordinates g) (j + 1)))
       (offsets (length (flatCoordinates g)) (stride g))"

text \<open>
  Modelled from the spec: \<^verbatim>\<open>new OlGeomPoint(c)\<close>; without coordinates the point has
  none.
\<close>

definition OlGeomPoint :: "coord option \<Rightarrow> geometry" where
  "OlGeomPoint c =
     \<lparr>getType = ''Point'',
      flatCoordinates = (case c of None \<Rightarrow> [] | Some (x, y) \<Rightarrow> [x, y]),
      stride = 2\<rparr>"

text \<open>
  Modelled from the spec: \<^verbatim>\<open>geometry.translate(dx, dy)\<close>. At every vertex the first
  two numbers change and the others are kept. For a stride under 2, which OpenLayers
  does not have, the model leaves the coordinates as they are.
\<close>

definition translate :: "num \<Rightarrow> num \<Rightarrow> geometry \<Rightarrow> geometry" where
  "translate dx dy g =
     (if stride g < 2 then g
      else g\<lparr>flatCoordinates :=
        map (\<lambda>k. if k mod stride g = 0 then flatCoordinates g ! k + dx
                  else if k mod stride g = 1 then flatCoordinates g ! k + dy
                  else flatCoordinates g ! k)
          [0..<length (flatCoordinates g)]\<rparr>)"

text \<open>
  Modelled from the spec: \<^verbatim>\<open>geometry.rotate(angle, anchor)\<close>, the rotation of every
  vertex about the anchor; the numbers after the first two of a vertex are kept.
\<close>

definition rotate_geometry :: "num \<Rightarrow> coord \<Rightarrow> geometry \<Rightarrow> geometry" where
  "rotate_geometry a anchor g =
     (if stride g < 2 then g
      else g\<lparr>flatCoordinates :=
        map (\<lambda>k. if k mod stride g = 0 then
                    fst anchor + (js_nth (flatCoordinates g) k - fst anchor) * Math_cos a
                      - (js_nth (flatCoordinates g) (k + 1) - snd anchor) * Math_sin a
                  else if k mod stride g = 1 then
                    snd anchor + (js_nth (flatCoordinates g) (k - 1) - fst anchor) * Math_sin a
                      + (js_nth (flatCoordinates g) k - snd anchor) * Math_cos a
                  else flatCoordinates g ! k)
          [0..<length (flatCoordinates g)]\<rparr>)"

text \<open>
  Modelled from the spec: \<^verbatim>\<open>geometry.applyTransform(fn)\<close>, which calls
  \<^verbatim>\<open>fn(flat, flat, stride)\<close>: the input array and the output array of the callback are
  the same array, which the callback changes in place.
\<close>

definition applyTransform :: "(num list \<Rightarrow> nat \<Rightarrow> num list) \<Rightarrow> geometry \<Rightarrow> geometry" where
  "applyTransform fn g = g\<lparr>flatCoordinates := fn (flatCoordinates g) (stride g)\<rparr>"

subsection \<open>Overlay features, events and the state of the interaction\<close>

text \<open>
  A feature of a data layer is owned by the caller; the interaction holds a reference
  to it. The model names such a feature by a number and keeps the geometry of every
  feature in the field \<open>store\<close> of the state (\<open>None\<close>: the feature has no geometry, so
  \<^verbatim>\<open>getGeometry()\<close> returns \<^verbatim>\<open>undefined\<close>).

  A feature of the overlay (a handle, or the outline of the bounding box) is an
  \<^verbatim>\<open>OlFeature\<close> with the properties \<^verbatim>\<open>geometry\<close>, \<^verbatim>\<open>handle\<close>, \<^verbatim>\<open>constraint\<close> and
  \<^verbatim>\<open>option\<close>, each of the last three possibly \<^verbatim>\<open>undefined\<close>.
\<close>

type_synonym fid = nat

record marker =
  m_geometry :: geometry
  m_handle :: "string option"
  m_constraint :: "string option"
  m_option :: "nat option"

text \<open>\<^verbatim>\<open>new OlFeature(geom)\<close>: a feature with a geometry and no other property.\<close>

definition OlFeature :: "geometry \<Rightarrow> marker" where
  "OlFeature g = \<lparr>m_geometry = g, m_handle = None, m_constraint = None, m_option = None\<rparr>"

text \<open>
  The event of the map browser that a handler receives: \<^verbatim>\<open>evt.pixel\<close>,
  \<^verbatim>\<open>evt.coordinate\<close> and the modifier keys of \<^verbatim>\<open>evt.originalEvent\<close>.
\<close>

record mbe =
  pixel :: coord
  coordinate :: coord
  shiftKey :: bool
  metaKey :: bool
  ctrlKey :: bool

text \<open>
  An event the interaction dispatches is an object literal: the list of its keys with
  their values, in the order of the source.
\<close>

datatype jsval =
  VStr string
| VFeature "fid option"
| VArr coord
| VNum num
| VGeom "geometry option"

type_synonym event = "(string \<times> jsval) list"

text \<open>
  The value of the property \<^verbatim>\<open>keepAspectRatio\<close>: a function of the event, or a value
  that is not a function. Used as a condition a function is truthy; calling a value
  that is not a function raises a \<^verbatim>\<open>TypeError\<close>.
\<close>

datatype cond = CUndefined | CBool bool | CFun "mbe \<Rightarrow> bool"

fun truthy_cond :: "cond \<Rightarrow> bool" where
  "truthy_cond CUndefined = False"
| "truthy_cond (CBool b) = b"
| "truthy_cond (CFun _) = True"

fun call_cond :: "cond \<Rightarrow> mbe \<Rightarrow> bool option" where
  "call_cond (CFun f) e = Some (f e)"
| "call_cond _ e = None"

text \<open>The value of \<^verbatim>\<open>this.mode_\<close>: never assigned, \<^verbatim>\<open>null\<close>, or the name of a handle.\<close>

datatype mode = MUndefined | MNull | Mode string

fun mode_string :: "mode \<Rightarrow> string" where
  "mode_string MUndefined = ''undefined''"
| "mode_string MNull = ''null''"
| "mode_string (Mode s) = s"

text \<open>
  What the interaction uses of its map: the two conversions between coordinates and
  pixels, each of which returns \<^verbatim>\<open>null\<close> while the map has not been rendered.
\<close>

record ol_map =
  getPixelFromCoordinate :: "coord \<Rightarrow> coord option"
  getCoordinateFromPixel :: "coord \<Rightarrow> coord option"

text \<open>
  The state: the geometries of the data features (\<open>store\<close>); the map the interaction
  is attached to (\<open>getMap\<close>); the features of the overlay source, which is the
  collection \<^verbatim>\<open>handles_\<close> (\<open>handles\<close>); the visibility of the overlay layer and the
  activity of the interaction; the events dispatched so far, oldest first; the
  properties read with \<^verbatim>\<open>this.get\<close>; and the private fields of the instance.
\<close>

record state =
  store :: "fid \<Rightarrow> geometry option"
  getMap :: "ol_map option"
  handles :: "marker list"
  visible :: bool
  active :: bool
  dispatched :: "event list"
  get_translateFeature :: bool
  get_translate :: bool
  get_stretch :: bool
  get_scale :: bool
  get_rotate :: bool
  get_keepAspectRatio :: cond
  this_bbox :: "marker option"
  this_feature :: "fid option"
  this_ispt :: bool
  this_mode :: mode
  this_opt :: "nat option"
  this_constraint :: "string option"
  this_coordinate :: "coord option"
  this_pixel :: "coord option"
  this_geom :: "geometry option"
  this_extent :: "coord list option"
  this_center :: "coord option"
  this_angle :: "num option"

text \<open>
  The options of the constructor that the model uses. A flag is \<open>None\<close> when the
  option is absent; the source reads it as \<^verbatim>\<open>options.flag !== false\<close>.
\<close>

record options =
  o_translateFeature :: "bool option"
  o_translate :: "bool option"
  o_stretch :: "bool option"
  o_scale :: "bool option"
  o_rotate :: "bool option"
  o_keepAspectRatio :: cond

definition dispatchEvent :: "state \<Rightarrow> event \<Rightarrow> state" where
  "dispatchEvent st e = st\<lparr>dispatched := dispatched st @ [e]\<rparr>"

definition addFeatures :: "state \<Rightarrow> marker list \<Rightarrow> state" where
  "addFeatures st fs = st\<lparr>handles := handles st @ fs\<rparr>"

definition setGeometry :: "state \<Rightarrow> fid \<Rightarrow> geometry \<Rightarrow> state" where
  "setGeometry st f g = st\<lparr>store := (store st)(f := Some g)\<rparr>"

subsection \<open>\<^verbatim>\<open>drawSketch_\<close>\<close>

text \<open>
  The argument is the value of \<^verbatim>\<open>center === true\<close>. The overlay source is cleared,
  and with a selection it is filled again: for the centre-only redraw with the marker
  \<^verbatim>\<open>rotate0\<close> and the outline, unless the selection is a point; otherwise with the
  handles the properties enable. Adding a feature to the source reads the extent of
  its geometry, which raises a \<^verbatim>\<open>TypeError\<close> for a point built without coordinates:
  the centre-only redraw fails while \<^verbatim>\<open>this.center_\<close> is \<^verbatim>\<open>undefined\<close>.
\<close>

definition midpoint_handle :: "coord list \<Rightarrow> nat \<Rightarrow> marker" where
  "midpoint_handle g i =
     \<lparr>m_geometry = OlGeomPoint (Some ((fst (g ! i) + fst (g ! (i + 1))) / Fin 2,
                                      (snd (g ! i) + snd (g ! (i + 1))) / Fin 2)),
      m_handle = Some ''scale'',
      m_constraint = Some (if i mod 2 \<noteq> 0 then ''h'' else ''v''),
      m_option = Some i\<rparr>"

definition corner_handle :: "coord list \<Rightarrow> nat \<Rightarrow> marker" where
  "corner_handle g j =
     \<lparr>m_geometry = OlGeomPoint (Some (g ! j)),
      m_handle = Some ''scale'',
      m_constraint = None,
      m_option = Some j\<rparr>"

definition translate_handle :: "coord list \<Rightarrow> marker" where
  "translate_handle g =
     \<lparr>m_geometry = OlGeomPoint (Some ((fst (g ! 0) + fst (g ! 2)) / Fin 2,
                                      (snd (g ! 0) + snd (g ! 2)) / Fin 2)),
      m_handle = Some ''translate'',
      m_constraint = None,
      m_option = None\<rparr>"

definition rotate_handle :: "coord list \<Rightarrow> marker" where
  "rotate_handle g =
     \<lparr>m_geometry = OlGeomPoint (Some (g ! 3)),
      m_handle = Some ''rotate'',
      m_constraint = None,
      m_option = None\<rparr>"

definition rotate0_marker :: "coord option \<Rightarrow> marker" where
  "rotate0_marker c =
     \<lparr>m_geometry = OlGeomPoint c,
      m_handle = Some ''rotate0'',
      m_constraint = None,
      m_option = None\<rparr>"

definition point_extent :: "ol_map \<Rightarrow> extent \<Rightarrow> extent option" where
  "point_extent m ext =
     (case ext of (minx, miny, maxx, maxy) \<Rightarrow>
        do {
          p \<leftarrow> getPixelFromCoordinate m (minx, miny);
          c1 \<leftarrow> getCoordinateFromPixel m (fst p - Fin 10, snd p - Fin 10);
          c2 \<leftarrow> getCoordinateFromPixel m (fst p + Fin 10, snd p + Fin 10);
          Some (boundingExtent [c1, c2])
        })"

text \<open>Lines 374 to 381: the extent the handles are laid around.\<close>

definition sketch_extent :: "state \<Rightarrow> geometry \<Rightarrow> extent option" where
  "sketch_extent st fg =
     (if this_ispt st then
        do { m \<leftarrow> getMap st; point_extent m (getExtent fg) }
      else Some (getExtent fg))"

text \<open>
  Lines 384 to 428: the features of a full redraw, from the outline \<open>f\<close> and its
  ring \<open>g\<close>.
\<close>

definition sketch_features :: "state \<Rightarrow> marker \<Rightarrow> coord list \<Rightarrow> marker list" where
  "sketch_features st f g =
     (if \<not> this_ispt st then
        [f]
        @ (if get_stretch st \<and> get_scale st
           then map (midpoint_handle g) [0..<length g - 1] else [])
        @ (if get_scale st
           then map (corner_handle g) [0..<length g - 1] else [])
        @ (if get_translate st \<and> \<not> get_translateFeature st
           then [translate_handle g] else [])
      else [])
     @ (if get_rotate st then [rotate_handle g] else [])"

definition drawSketch :: "state \<Rightarrow> bool \<Rightarrow> state option" where
  "drawSketch st0 center =
     (let st = st0\<lparr>handles := []\<rparr> in
      case this_feature st of
        None \<Rightarrow> Some st
      | Some feat \<Rightarrow>
          if center then
            (if \<not> this_ispt st then
               do {
                 c \<leftarrow> this_center st;
                 let st1 = addFeatures st [rotate0_marker (Some c)];
                 fg \<leftarrow> store st1 feat;
                 let f = OlFeature (fromExtent (getExtent fg));
                 Some (addFeatures (st1\<lparr>this_bbox := Some f\<rparr>) [f])
               }
             else Some st)
          else
            do {
              fg \<leftarrow> store st feat;
              ext \<leftarrow> sketch_extent st fg;
              let geom = fromExtent ext;
              let f = OlFeature geom;
              let g = ring geom;
              Some (addFeatures (st\<lparr>this_bbox := Some f\<rparr>) (sketch_features st f g))
            })"

subsection \<open>The constructor, \<^verbatim>\<open>select\<close> and \<^verbatim>\<open>setActive\<close>\<close>

text \<open>
  The constructor sets the properties and ends with \<^verbatim>\<open>setDefaultStyle\<close>, which calls
  \<^verbatim>\<open>drawSketch_\<close> on the empty selection. A new layer is visible and a new interaction
  is active.
\<close>

definition constructor :: "options \<Rightarrow> (fid \<Rightarrow> geometry option) \<Rightarrow> state" where
  "constructor opts geoms =
     \<lparr>store = geoms,
      getMap = None,
      handles = [],
      visible = True,
      active = True,
      dispatched = [],
      get_translateFeature = (o_translateFeature opts \<noteq> Some False),
      get_translate = (o_translate opts \<noteq> Some False),
      get_stretch = (o_stretch opts \<noteq> Some False),
      get_scale = (o_scale opts \<noteq> Some False),
      get_rotate = (o_rotate opts \<noteq> Some False),
      get_keepAspectRatio =
        (if truthy_cond (o_keepAspectRatio opts) then o_keepAspectRatio opts
         else CFun (\<lambda>e. shiftKey e)),
      this_bbox = None,
      this_feature = None,
      this_ispt = False,
      this_mode = MUndefined,
      this_opt = None,
      this_constraint = None,
      this_coordinate = None,
      this_pixel = None,
      this_geom = None,
      this_extent = None,
      this_center = None,
      this_angle = None\<rparr>"

text \<open>\<^verbatim>\<open>setMap(map)\<close> with a map: the map is attached and the overlay is drawn again.\<close>

definition setMap :: "state \<Rightarrow> ol_map \<Rightarrow> state option" where
  "setMap st m = drawSketch (st\<lparr>getMap := Some m\<rparr>) False"

text \<open>\<^verbatim>\<open>this.feature_ ? (this.feature_.getGeometry().getType() == 'Point') : false\<close>\<close>

definition is_point :: "state \<Rightarrow> fid option \<Rightarrow> bool option" where
  "is_point st feature =
     (case feature of
        None \<Rightarrow> Some False
      | Some f \<Rightarrow> do { g \<leftarrow> store st f; Some (getType g = ''Point'') })"

definition select :: "state \<Rightarrow> fid option \<Rightarrow> state option" where
  "select st feature =
     do {
       ispt \<leftarrow> is_point st feature;
       st1 \<leftarrow> drawSketch (st\<lparr>this_feature := feature, this_ispt := ispt\<rparr>) False;
       Some (dispatchEvent st1
               [(''type'', VStr ''select''), (''feature'', VFeature (this_feature st1))])
     }"

definition setActive :: "state \<Rightarrow> bool \<Rightarrow> state option" where
  "setActive st b =
     do {
       st1 \<leftarrow> select st None;
       Some (st1\<lparr>visible := b, active := b\<rparr>)
     }"

subsection \<open>\<^verbatim>\<open>handleDownEvent_\<close>\<close>

text \<open>
  The result of \<^verbatim>\<open>getFeatureAtPixel_(evt.pixel)\<close>: an object with the optional keys
  \<^verbatim>\<open>feature\<close>, \<^verbatim>\<open>handle\<close>, \<^verbatim>\<open>constraint\<close> and \<^verbatim>\<open>option\<close>. It comes from the hit
  test of the map, so the handler takes it as an argument. The key \<open>sel_feature\<close> names
  a feature of a data layer. On a hit on a handle the source puts the marker of the
  overlay there, which is no such feature and which the handler only compares with the
  selection; the model has \<open>None\<close> for it.
\<close>

record sel =
  sel_feature :: "fid option"
  sel_handle :: "string option"
  sel_constraint :: "string option"
  sel_option :: "nat option"

text \<open>
  Lines 459 to 462: a press on the selected feature itself counts as a press on a
  translate handle, when the properties allow it.
\<close>

definition click_to_translate :: "state \<Rightarrow> sel \<Rightarrow> sel" where
  "click_to_translate st sel0 =
     (if this_feature st \<noteq> None \<and> this_feature st = sel_feature sel0 \<and>
         ((this_ispt st \<and> get_translate st) \<or> get_translateFeature st)
      then sel0\<lparr>sel_handle := Some ''translate''\<rparr> else sel0)"

definition handleDownEvent :: "state \<Rightarrow> mbe \<Rightarrow> sel \<Rightarrow> (state \<times> bool) option" where
  "handleDownEvent st evt sel0 =
     (let feature = sel_feature sel0;
          sel = click_to_translate st sel0
      in if truthy_str (sel_handle sel) then
           do {
             h \<leftarrow> sel_handle sel;
             f \<leftarrow> this_feature st;
             fg \<leftarrow> store st f;
             let ext = getExtent fg;
             let c = getCenter ext;
             let st1 = st\<lparr>this_mode := Mode h,
                          this_opt := sel_option sel,
                          this_constraint := sel_constraint sel,
                          this_coordinate := Some (coordinate evt),
                          this_pixel := Some (pixel evt),
                          this_geom := Some fg,
                          this_extent := Some (ring (fromExtent ext)),
                          this_center := Some c,
                          this_angle := Some (Math_atan2 (snd c - snd (coordinate evt))
                                                         (fst c - fst (coordinate evt)))\<rparr>;
             Some (dispatchEvent st1
                     [(''type'', VStr (h @ ''start'')),
                      (''feature'', VFeature (this_feature st1)),
                      (''pixel'', VArr (pixel evt)),
                      (''coordinate'', VArr (coordinate evt))],
                   True)
           }
         else
           do {
             ispt \<leftarrow> is_point st feature;
             st1 \<leftarrow> drawSketch (st\<lparr>this_feature := feature, this_ispt := ispt\<rparr>) False;
             Some (dispatchEvent st1
                     [(''type'', VStr ''select''),
                      (''feature'', VFeature (this_feature st1)),
                      (''pixel'', VArr (pixel evt)),
                      (''coordinate'', VArr (coordinate evt))],
                   False)
           })"

subsection \<open>\<^verbatim>\<open>handleDragEvent_\<close>\<close>

text \<open>
  The pivot of a scale (lines 548 to 551): \<^verbatim>\<open>this.center_\<close>, or with the meta or the
  control key of the drag event \<^verbatim>\<open>this.extent_[(Number(this.opt_) + 2) % 4]\<close>. The
  result \<open>None\<close> is a pivot that is \<^verbatim>\<open>undefined\<close>, or a \<^verbatim>\<open>TypeError\<close> on reading
  \<^verbatim>\<open>this.extent_\<close>; the next statement of the source reads \<^verbatim>\<open>center[0]\<close>, so both
  end in a \<^verbatim>\<open>TypeError\<close>.
\<close>

definition scale_pivot :: "state \<Rightarrow> mbe \<Rightarrow> coord option" where
  "scale_pivot st evt =
     (if metaKey evt \<or> ctrlKey evt then
        do {
          e \<leftarrow> this_extent st;
          i \<leftarrow> this_opt st;
          nth_opt e ((i + 2) mod 4)
        }
      else this_center st)"

text \<open>The two ratios of lines 553 and 554.\<close>

definition raw_scale :: "coord \<Rightarrow> coord \<Rightarrow> mbe \<Rightarrow> coord" where
  "raw_scale center start evt =
     ((fst (coordinate evt) - fst center) / (fst start - fst center),
      (snd (coordinate evt) - snd center) / (snd start - snd center))"

text \<open>The condition \<^verbatim>\<open>keepAspectRatio || keepAspectRatio(evt)\<close> of line 564.\<close>

definition keepAspect :: "cond \<Rightarrow> mbe \<Rightarrow> bool option" where
  "keepAspect k evt = (if truthy_cond k then Some True else call_cond k evt)"

text \<open>The factors after lines 556 to 567, from the two ratios.\<close>

definition scale_factors :: "state \<Rightarrow> mbe \<Rightarrow> coord \<Rightarrow> coord option" where
  "scale_factors st evt raw =
     (if truthy_str (this_constraint st) then
        (if this_constraint st = Some ''h'' then Some (Fin 1, snd raw)
         else Some (fst raw, Fin 1))
      else
        do {
          k \<leftarrow> keepAspect (get_keepAspectRatio st) evt;
          Some (if k then (Math_min (fst raw) (snd raw), Math_min (fst raw) (snd raw))
                else raw)
        })"

text \<open>
  The callback given to \<^verbatim>\<open>applyTransform\<close> (lines 570 to 584). Its arrays \<^verbatim>\<open>g1\<close> and
  \<^verbatim>\<open>g2\<close> are the same array \<open>g\<close>; \<open>scale_loop\<close> is the \<^verbatim>\<open>for\<close> loop from the index
  \<open>i\<close> on, and \<open>dm\<close> is the parameter \<^verbatim>\<open>dim\<close>.
\<close>

function scale_loop :: "coord \<Rightarrow> num \<Rightarrow> num \<Rightarrow> nat \<Rightarrow> nat \<Rightarrow> num list \<Rightarrow> num list" where
  "scale_loop center scx scy dm i g =
     (if dm < 2 \<or> length g \<le> i then g
      else
        let g' = (if js_neq scx (Fin 1)
                  then js_set g i (fst center + (js_nth g i - fst center) * scx)
                  else g);
            g'' = (if js_neq scy (Fin 1)
                   then js_set g' (i + 1)
                          (snd center + (js_nth g' (i + 1) - snd center) * scy)
                   else g')
        in scale_loop center scx scy dm (i + dm) g'')"
  by pat_completeness auto
termination
  by (relation "measure (\<lambda>(center, scx, scy, dm, i, g). length g + 1 - i)")
     (auto simp: js_set_def)

definition scale_fn :: "coord \<Rightarrow> num \<Rightarrow> num \<Rightarrow> num list \<Rightarrow> nat \<Rightarrow> num list" where
  "scale_fn center scx scy g dm =
     (if dm < 2 then g else scale_loop center scx scy dm 0 g)"

text \<open>
  The rotate branch tests \<^verbatim>\<open>!this.ispt\<close>; the instance has no property of that name
  (its flag is \<^verbatim>\<open>ispt_\<close>), so the test reads \<^verbatim>\<open>undefined\<close> and the branch is always
  taken.
\<close>

definition handleDragEvent :: "state \<Rightarrow> mbe \<Rightarrow> state option" where
  "handleDragEvent st evt =
     (if this_mode st = Mode ''rotate'' then
        do {
          c \<leftarrow> this_center st;
          let a = Math_atan2 (snd c - snd (coordinate evt)) (fst c - fst (coordinate evt));
          g \<leftarrow> this_geom st;
          let geometry = rotate_geometry (a - ToNumber (this_angle st)) c g;
          f \<leftarrow> this_feature st;
          st1 \<leftarrow> drawSketch (setGeometry st f geometry) True;
          Some (dispatchEvent st1
                  [(''type'', VStr ''rotating''),
                   (''feature'', VFeature (this_feature st1)),
                   (''angle'', VNum (a - ToNumber (this_angle st1))),
                   (''pixel'', VArr (pixel evt)),
                   (''coordinate'', VArr (coordinate evt))])
        }
      else if this_mode st = Mode ''translate'' then
        do {
          start \<leftarrow> this_coordinate st;
          let deltaX = fst (coordinate evt) - fst start;
          let deltaY = snd (coordinate evt) - snd start;
          f \<leftarrow> this_feature st;
          g \<leftarrow> store st f;
          let st1 = setGeometry st f (translate deltaX deltaY g);
          let st2 = st1\<lparr>handles :=
                      map (\<lambda>m. m\<lparr>m_geometry := translate deltaX deltaY (m_geometry m)\<rparr>)
                        (handles st1)\<rparr>;
          let st3 = st2\<lparr>this_coordinate := Some (coordinate evt)\<rparr>;
          Some (dispatchEvent st3
                  [(''type'', VStr ''translating''),
                   (''feature'', VFeature (this_feature st3)),
                   (''delta'', VArr (deltaX, deltaY)),
                   (''pixel'', VArr (pixel evt)),
                   (''coordinate'', VArr (coordinate evt))])
        }
      else if this_mode st = Mode ''scale'' then
        do {
          center \<leftarrow> scale_pivot st evt;
          start \<leftarrow> this_coordinate st;
          sc \<leftarrow> scale_factors st evt (raw_scale center start evt);
          g \<leftarrow> this_geom st;
          let geometry = applyTransform (scale_fn center (fst sc) (snd sc)) g;
          f \<leftarrow> this_feature st;
          st1 \<leftarrow> drawSketch (setGeometry st f geometry) False;
          Some (dispatchEvent st1
                  [(''type'', VStr ''scaling''),
                   (''feature'', VFeature (this_feature st1)),
                   (''scale'', VArr sc),
                   (''pixel'', VArr (pixel evt)),
                   (''coordinate'', VArr (coordinate evt))])
        }
      else Some st)"

text \<open>
  The drag events of a gesture reach \<^verbatim>\<open>handleDragEvent_\<close> one after the other, each on
  the state the one before it left; the first failure ends the sequence.
\<close>

fun drags :: "state \<Rightarrow> mbe list \<Rightarrow> state option" where
  "drags st [] = Some st"
| "drags st (e # es) = (case handleDragEvent st e of None \<Rightarrow> None | Some st' \<Rightarrow> drags st' es)"

subsection \<open>\<^verbatim>\<open>handleUpEvent_\<close>\<close>

definition handleUpEvent :: "state \<Rightarrow> (state \<times> bool) option" where
  "handleUpEvent st =
     do {
       let st1 = dispatchEvent st
                   [(''type'', VStr (mode_string (this_mode st) @ ''end'')),
                    (''feature'', VFeature (this_feature st)),
                    (''oldgeom'', VGeom (this_geom st))];
       st2 \<leftarrow> drawSketch st1 False;
       Some (st2\<lparr>this_mode := MNull\<rparr>, False)
     }"

subsection \<open>Inputs of the scenarios\<close>

text \<open>
  The square with the corners (0,0), (10,0), (10,10), (0,10), as a polygon with one
  closed ring; an interaction built with no options over a layer whose only feature,
  number 0, is that square; pointer events without a modifier key; and the hits on a
  corner handle and on an edge handle as \<^verbatim>\<open>drawSketch_\<close> tags them.
\<close>

definition square :: geometry where
  "square =
     \<lparr>getType = ''Polygon'',
      flatCoordinates = [Fin 0, Fin 0, Fin 10, Fin 0, Fin 10, Fin 10, Fin 0, Fin 10, Fin 0, Fin 0],
      stride = 2\<rparr>"

definition no_options :: options where
  "no_options =
     \<lparr>o_translateFeature = None, o_translate = None, o_stretch = None, o_scale = None,
      o_rotate = None, o_keepAspectRatio = CUndefined\<rparr>"

definition square_layer :: "fid \<Rightarrow> geometry option" where
  "square_layer f = (if f = 0 then Some square else None)"

definition pointer :: "real \<Rightarrow> real \<Rightarrow> mbe" where
  "pointer x y =
     \<lparr>pixel = (Fin x, Fin y), coordinate = (Fin x, Fin y),
      shiftKey = False, metaKey = False, ctrlKey = False\<rparr>"

definition corner_hit :: "nat \<Rightarrow> sel" where
  "corner_hit j =
     \<lparr>sel_feature = None, sel_handle = Some ''scale'', sel_constraint = None,
      sel_option = Some j\<rparr>"

definition edge_hit :: "nat \<Rightarrow> sel" where
  "edge_hit i =
     \<lparr>sel_feature = None, sel_handle = Some ''scale'',
      sel_constraint = Some (if i mod 2 \<noteq> 0 then ''h'' else ''v''),
      sel_option = Some i\<rparr>"

definition feature_hit :: "fid \<Rightarrow> sel" where
  "feature_hit f =
     \<lparr>sel_feature = Some f, sel_handle = None, sel_constraint = None, sel_option = None\<rparr>"

definition new_interaction :: state where
  "new_interaction = constructor no_options square_layer"

text \<open>
  A point at (3,4) as the only feature of a layer, and a map on which one pixel is one
  unit of the coordinates.
\<close>

definition point_geom :: geometry where
  "point_geom = \<lparr>getType = ''Point'', flatCoordinates = [Fin 3, Fin 4], stride = 2\<rparr>"

definition point_layer :: "fid \<Rightarrow> geometry option" where
  "point_layer f = (if f = 0 then Some point_geom else None)"

definition unit_map :: ol_map where
  "unit_map = \<lparr>getPixelFromCoordinate = Some, getCoordinateFromPixel = Some\<rparr>"

section \<open>Properties\<close>

subsection \<open>The frame of \<^verbatim>\<open>drawSketch_\<close> and \<^verbatim>\<open>select\<close>\<close>

lemma drawSketch_no_feature:
  "this_feature st = None \<Longrightarrow> drawSketch st c = Some (st\<lparr>handles := []\<rparr>)"
  by (simp add: drawSketch_def)

lemma drawSketch_frame:
  assumes "drawSketch st c = Some st'"
  shows "st' = st\<lparr>handles := handles st', this_bbox := this_bbox st'\<rparr>"
proof (cases "this_feature st")
  case None
  with assms show ?thesis by (auto simp: drawSketch_def)
next
  case (Some f)
  with assms show ?thesis
    by (auto simp: drawSketch_def addFeatures_def Let_def bind_eq_Some_conv split: if_splits)
qed

lemma drawSketch_frame_ex:
  assumes "drawSketch st c = Some st'"
  shows "\<exists>H B. st' = st\<lparr>handles := H, this_bbox := B\<rparr>"
  using drawSketch_frame[OF assms] by blast

lemma select_None:
  "select st None =
     Some (st\<lparr>this_feature := None, this_ispt := False, handles := [],
              dispatched := dispatched st
                @ [[(''type'', VStr ''select''), (''feature'', VFeature None)]]\<rparr>)"
  by (simp add: select_def is_point_def drawSketch_def dispatchEvent_def)

lemma select_frame:
  assumes "select st feat = Some st'"
  shows "\<exists>I H B. st' = st\<lparr>this_feature := feat, this_ispt := I, handles := H, this_bbox := B,
           dispatched := dispatched st
             @ [[(''type'', VStr ''select''), (''feature'', VFeature feat)]]\<rparr>"
proof -
  from assms obtain ispt s1 where
    s1: "drawSketch (st\<lparr>this_feature := feat, this_ispt := ispt\<rparr>) False = Some s1"
    and st': "st' = dispatchEvent s1
                [(''type'', VStr ''select''), (''feature'', VFeature (this_feature s1))]"
    by (auto simp: select_def bind_eq_Some_conv)
  from drawSketch_frame_ex[OF s1] obtain H B where
    "s1 = st\<lparr>this_feature := feat, this_ispt := ispt, handles := H, this_bbox := B\<rparr>"
    by blast
  with st' have "st' = st\<lparr>this_feature := feat, this_ispt := ispt, handles := H,
      this_bbox := B,
      dispatched := dispatched st
        @ [[(''type'', VStr ''select''), (''feature'', VFeature feat)]]\<rparr>"
    by (simp add: dispatchEvent_def)
  then show ?thesis by blast
qed

lemma setActive_eq:
  "setActive st b =
     Some (st\<lparr>this_feature := None, this_ispt := False, handles := [],
              dispatched := dispatched st
                @ [[(''type'', VStr ''select''), (''feature'', VFeature None)]],
              visible := b, active := b\<rparr>)"
  by (simp add: setActive_def select_None)

subsection \<open>Deactivation\<close>

text \<open>
  Claim C9. \<^verbatim>\<open>setActive(false)\<close> never fails; afterwards the selection is
  \<^verbatim>\<open>null\<close>, the overlay layer is invisible and holds no feature, and the geometry
  of every feature, the one that was selected among them, is what it was.
\<close>

theorem C9_setActive_false:
  "\<exists>st'. setActive st False = Some st' \<and> this_feature st' = None \<and> \<not> visible st'
     \<and> handles st' = [] \<and> store st' = store st"
  by (simp add: setActive_eq)

text \<open>
  Claim C10. For either value of \<open>b\<close>, \<^verbatim>\<open>setActive(b)\<close> never fails; it sets the
  selection to \<^verbatim>\<open>null\<close>, whatever it was, dispatches one event, the literal
  \<^verbatim>\<open>{type: 'select', feature: null}\<close>, and sets the visibility of the overlay layer
  to \<open>b\<close>.
\<close>

theorem C10_setActive_any:
  "\<exists>st'. setActive st b = Some st' \<and> this_feature st' = None \<and> visible st' = b
     \<and> dispatched st' = dispatched st
          @ [[(''type'', VStr ''select''), (''feature'', VFeature None)]]"
  by (simp add: setActive_eq)

subsection \<open>Unfolding the loop of the scale callback\<close>

lemma scale_loop_done: "dm < 2 \<or> length g \<le> i \<Longrightarrow> scale_loop c sx sy dm i g = g"
  by (subst scale_loop.simps) simp

lemma scale_loop_step: "\<not> (dm < 2 \<or> length g \<le> i) \<Longrightarrow> scale_loop c sx sy dm i g =
   (let g' = (if js_neq sx (Fin 1) then js_set g i (fst c + (js_nth g i - fst c) * sx) else g);
        g'' = (if js_neq sy (Fin 1) then js_set g' (i + 1) (snd c + (js_nth g' (i + 1) - snd c) * sy) else g')
    in scale_loop c sx sy dm (i + dm) g'')"
  by (subst scale_loop.simps) simp

subsection \<open>The square, and gestures on it\<close>

lemma upt4: "[0..<4] = [0, 1, 2, 3]" by (simp add: upt_rec)
lemma upt5: "[0..<5] = [0, 1, 2, 3, 4]" by (simp add: upt_rec)

lemma getExtent_square: "getExtent square = (Fin 0, Fin 0, Fin 10, Fin 10)"
  by (simp add: square_def getExtent_def offsets_def extendXY_def createEmpty_def js_nth_def
      upt5)

lemma ring_fromExtent:
  "ring (fromExtent (a, b, c, d)) = [(a, b), (a, d), (c, d), (c, b), (a, b)]"
  by (simp add: ring_def fromExtent_def offsets_def js_nth_def upt5)

lemma getCenter_square: "getCenter (Fin 0, Fin 0, Fin 10, Fin 10) = (Fin 5, Fin 5)"
  by (simp add: getCenter_def)

lemma scale_square_2_2:
  "applyTransform (scale_fn (Fin 5, Fin 5) (Fin 2) (Fin 2)) square =
     square\<lparr>flatCoordinates := [Fin (-5), Fin (-5), Fin 15, Fin (-5), Fin 15, Fin 15, Fin (-5), Fin 15, Fin (-5), Fin (-5)]\<rparr>"
  by (simp add: applyTransform_def scale_fn_def square_def scale_loop_step scale_loop_done
      js_neq_def js_set_def js_nth_def minus_num_def Let_def)

lemma down_handle:
  assumes "sel_handle hit = Some h" "h \<noteq> []" "this_feature st = Some f" "store st f = Some g"
    "sel_feature hit \<noteq> Some f"
  shows "handleDownEvent st evt hit =
    Some (st\<lparr>this_mode := Mode h,
             this_opt := sel_option hit,
             this_constraint := sel_constraint hit,
             this_coordinate := Some (coordinate evt),
             this_pixel := Some (pixel evt),
             this_geom := Some g,
             this_extent := Some (ring (fromExtent (getExtent g))),
             this_center := Some (getCenter (getExtent g)),
             this_angle := Some (Math_atan2 (snd (getCenter (getExtent g)) - snd (coordinate evt))
                                            (fst (getCenter (getExtent g)) - fst (coordinate evt))),
             dispatched := dispatched st @
               [[(''type'', VStr (h @ ''start'')), (''feature'', VFeature (Some f)),
                 (''pixel'', VArr (pixel evt)), (''coordinate'', VArr (coordinate evt))]]\<rparr>, True)"
  using assms
  by (simp add: handleDownEvent_def click_to_translate_def truthy_str_def dispatchEvent_def Let_def)


lemma sketch_features_handles:
  "sketch_features (st\<lparr>handles := H\<rparr>) f g = sketch_features st f g"
  by (simp add: sketch_features_def)

lemma drawSketch_full_nonpoint:
  assumes "this_feature st = Some f" "store st f = Some g" "\<not> this_ispt st"
  shows "drawSketch st False =
    Some (st\<lparr>this_bbox := Some (OlFeature (fromExtent (getExtent g))),
             handles := sketch_features st (OlFeature (fromExtent (getExtent g)))
                          (ring (fromExtent (getExtent g)))\<rparr>)"
  using assms
  by (simp add: drawSketch_def sketch_extent_def addFeatures_def Let_def sketch_features_handles)

lemma drag_scale:
  assumes "this_mode st = Mode ''scale''" "scale_pivot st evt = Some c"
    "this_coordinate st = Some start"
    "scale_factors st evt (raw_scale c start evt) = Some sc" "this_geom st = Some g"
    "this_feature st = Some f"
    "drawSketch (setGeometry st f (applyTransform (scale_fn c (fst sc) (snd sc)) g)) False = Some s1"
  shows "handleDragEvent st evt =
    Some (dispatchEvent s1 [(''type'', VStr ''scaling''), (''feature'', VFeature (this_feature s1)),
       (''scale'', VArr sc), (''pixel'', VArr (pixel evt)), (''coordinate'', VArr (coordinate evt))])"
  using assms by (simp add: handleDragEvent_def)

lemma select_square:
  "select new_interaction (Some 0) =
     Some (new_interaction\<lparr>this_feature := Some 0,
        this_bbox := Some (OlFeature (fromExtent (Fin 0, Fin 0, Fin 10, Fin 10))),
        handles := sketch_features new_interaction (OlFeature (fromExtent (Fin 0, Fin 0, Fin 10, Fin 10)))
            [(Fin 0, Fin 0), (Fin 0, Fin 10), (Fin 10, Fin 10), (Fin 10, Fin 0), (Fin 0, Fin 0)],
        dispatched := [[(''type'', VStr ''select''), (''feature'', VFeature (Some 0))]]\<rparr>)"
proof -
  let ?s = "new_interaction\<lparr>this_feature := Some 0, this_ispt := False\<rparr>"
  have a: "this_feature ?s = Some 0" "store ?s 0 = Some square" "\<not> this_ispt ?s"
    by (simp_all add: new_interaction_def constructor_def square_layer_def)
  have b: "is_point new_interaction (Some 0) = Some False"
    by (simp add: is_point_def new_interaction_def constructor_def square_layer_def square_def)
  show ?thesis
    unfolding select_def b
    by (simp add: drawSketch_full_nonpoint[OF a] getExtent_square ring_fromExtent dispatchEvent_def
        sketch_features_def)
      (simp add: new_interaction_def constructor_def)
qed


lemma scale_factors_cong:
  "this_constraint s = this_constraint t \<Longrightarrow> get_keepAspectRatio s = get_keepAspectRatio t \<Longrightarrow>
   scale_factors s ev raw = scale_factors t ev raw"
  by (simp add: scale_factors_def)

lemma square_scale_run:
  assumes hit: "sel_handle hit = Some ''scale''" "sel_feature hit = None" "sel_option hit = Some i"
    and p: "p = (if metaKey ev \<or> ctrlKey ev
                 then [(Fin 0, Fin 0), (Fin 0, Fin 10), (Fin 10, Fin 10), (Fin 10, Fin 0),
                       (Fin 0, Fin 0)] ! ((i + 2) mod 4)
                 else (Fin 5, Fin 5))"
    and sc: "scale_factors (new_interaction\<lparr>this_constraint := sel_constraint hit\<rparr>) ev
               (raw_scale p (coordinate dn) ev) = Some sc"
  shows "\<exists>s1 s2 s3.
      select new_interaction (Some 0) = Some s1
    \<and> handleDownEvent s1 dn hit = Some (s2, True)
    \<and> handleDragEvent s2 ev = Some s3
    \<and> handles s1 = sketch_features new_interaction
         (OlFeature (fromExtent (Fin 0, Fin 0, Fin 10, Fin 10)))
         [(Fin 0, Fin 0), (Fin 0, Fin 10), (Fin 10, Fin 10), (Fin 10, Fin 0), (Fin 0, Fin 0)]
    \<and> this_mode s2 = Mode ''scale''
    \<and> this_constraint s2 = sel_constraint hit
    \<and> get_keepAspectRatio s2 = CFun (\<lambda>e. shiftKey e)
    \<and> this_center s2 = Some (Fin 5, Fin 5)
    \<and> this_coordinate s2 = Some (coordinate dn)
    \<and> this_geom s2 = Some square
    \<and> this_feature s2 = Some 0
    \<and> store s2 0 = Some square
    \<and> \<not> this_ispt s2
    \<and> this_opt s2 = Some i
    \<and> this_extent s2 = Some [(Fin 0, Fin 0), (Fin 0, Fin 10), (Fin 10, Fin 10), (Fin 10, Fin 0),
                              (Fin 0, Fin 0)]
    \<and> scale_pivot s2 ev = Some p
    \<and> store s3 0 = Some (applyTransform (scale_fn p (fst sc) (snd sc)) square)
    \<and> last (dispatched s3) =
        [(''type'', VStr ''scaling''), (''feature'', VFeature (Some 0)), (''scale'', VArr sc),
         (''pixel'', VArr (pixel ev)), (''coordinate'', VArr (coordinate ev))]"
proof -
  define s1 where "s1 = new_interaction\<lparr>this_feature := Some 0,
        this_bbox := Some (OlFeature (fromExtent (Fin 0, Fin 0, Fin 10, Fin 10))),
        handles := sketch_features new_interaction (OlFeature (fromExtent (Fin 0, Fin 0, Fin 10, Fin 10)))
            [(Fin 0, Fin 0), (Fin 0, Fin 10), (Fin 10, Fin 10), (Fin 10, Fin 0), (Fin 0, Fin 0)],
        dispatched := [[(''type'', VStr ''select''), (''feature'', VFeature (Some 0))]]\<rparr>"
  have h1: "select new_interaction (Some 0) = Some s1"
    by (simp add: select_square s1_def)
  have f1: "this_feature s1 = Some 0" "store s1 0 = Some square" "\<not> this_ispt s1"
    "get_keepAspectRatio s1 = CFun (\<lambda>e. shiftKey e)"
    by (simp_all add: s1_def new_interaction_def constructor_def square_layer_def no_options_def)
  obtain s2 where h2: "handleDownEvent s1 dn hit = Some (s2, True)"
    and s2: "s2 = s1\<lparr>this_mode := Mode ''scale'',
             this_opt := sel_option hit,
             this_constraint := sel_constraint hit,
             this_coordinate := Some (coordinate dn),
             this_pixel := Some (pixel dn),
             this_geom := Some square,
             this_extent := Some (ring (fromExtent (getExtent square))),
             this_center := Some (getCenter (getExtent square)),
             this_angle := Some (Math_atan2 (snd (getCenter (getExtent square)) - snd (coordinate dn))
                                            (fst (getCenter (getExtent square)) - fst (coordinate dn))),
             dispatched := dispatched s1 @
               [[(''type'', VStr (''scale'' @ ''start'')), (''feature'', VFeature (Some 0)),
                 (''pixel'', VArr (pixel dn)), (''coordinate'', VArr (coordinate dn))]]\<rparr>"
    using down_handle[of hit "''scale''" s1 0 square dn] hit f1 by simp
  have f2: "this_mode s2 = Mode ''scale''" "this_constraint s2 = sel_constraint hit"
    "get_keepAspectRatio s2 = CFun (\<lambda>e. shiftKey e)" "this_center s2 = Some (Fin 5, Fin 5)"
    "this_coordinate s2 = Some (coordinate dn)" "this_geom s2 = Some square"
    "this_feature s2 = Some 0" "\<not> this_ispt s2" "store s2 0 = Some square"
    "this_extent s2 = Some [(Fin 0, Fin 0), (Fin 0, Fin 10), (Fin 10, Fin 10), (Fin 10, Fin 0), (Fin 0, Fin 0)]"
    "this_opt s2 = Some i"
    by (simp_all add: s2 f1 getExtent_square getCenter_square ring_fromExtent hit)
  have "(i + 2) mod 4 < 5"
    using mod_less_divisor[of 4 "i + 2"] by linarith
  then have nth: "nth_opt [(Fin 0, Fin 0), (Fin 0, Fin 10), (Fin 10, Fin 10), (Fin 10, Fin 0),
      (Fin 0, Fin 0)] ((i + 2) mod 4) =
    Some ([(Fin 0, Fin 0), (Fin 0, Fin 10), (Fin 10, Fin 10), (Fin 10, Fin 0),
      (Fin 0, Fin 0)] ! ((i + 2) mod 4))"
    unfolding nth_opt_def by simp
  have piv: "scale_pivot s2 ev = Some p"
    unfolding scale_pivot_def f2 p using nth by simp
  have fac: "scale_factors s2 ev (raw_scale p (coordinate dn) ev) = Some sc"
    using scale_factors_cong[of s2 "new_interaction\<lparr>this_constraint := sel_constraint hit\<rparr>"] sc f2
    by (simp add: new_interaction_def constructor_def no_options_def)
  define s2' where "s2' = setGeometry s2 0 (applyTransform (scale_fn p (fst sc) (snd sc)) square)"
  have f2': "this_feature s2' = Some 0"
    "store s2' 0 = Some (applyTransform (scale_fn p (fst sc) (snd sc)) square)" "\<not> this_ispt s2'"
    by (simp_all add: s2'_def setGeometry_def f2)
  from drawSketch_full_nonpoint[OF f2'] obtain s2'' where
    d: "drawSketch s2' False = Some s2''" by blast
  from drawSketch_frame_ex[OF d] obtain H B where s2'': "s2'' = s2'\<lparr>handles := H, this_bbox := B\<rparr>"
    by blast
  have h3: "handleDragEvent s2 ev = Some (dispatchEvent s2''
       [(''type'', VStr ''scaling''), (''feature'', VFeature (this_feature s2'')),
       (''scale'', VArr sc), (''pixel'', VArr (pixel ev)), (''coordinate'', VArr (coordinate ev))])"
    using drag_scale[OF f2(1) piv f2(5) fac f2(6) f2(7)] d by (simp add: s2'_def)
  show ?thesis
    using h1 h2 h3 f2 piv
    by (simp add: s2'' f2' dispatchEvent_def) (simp add: s1_def)
qed


lemma ring_square:
  "ring square = [(Fin 0, Fin 0), (Fin 10, Fin 0), (Fin 10, Fin 10), (Fin 0, Fin 10), (Fin 0, Fin 0)]"
  by (simp add: ring_def square_def offsets_def js_nth_def upt5)

lemma ring_square_upd:
  "ring (square\<lparr>flatCoordinates := [a0, b0, a1, b1, a2, b2, a3, b3, a4, b4]\<rparr>) =
     [(a0, b0), (a1, b1), (a2, b2), (a3, b3), (a4, b4)]"
  by (simp add: ring_def square_def offsets_def js_nth_def upt5)

lemma default_factors:
  "scale_factors (new_interaction\<lparr>this_constraint := c\<rparr>) ev raw =
     (if truthy_str c then (if c = Some ''h'' then Some (Fin 1, snd raw) else Some (fst raw, Fin 1))
      else Some (Math_min (fst raw) (snd raw), Math_min (fst raw) (snd raw)))"
  by (simp add: scale_factors_def keepAspect_def new_interaction_def constructor_def no_options_def)

text \<open>
  Claim C7. The square is selected; the corner handle of \<^verbatim>\<open>drawSketch_\<close> at (10,10),
  which has the option 2 and no constraint, is in the overlay and is grabbed at (10,10);
  the pointer is dragged to (15,15) with no modifier key, so the default predicate
  \<^verbatim>\<open>keepAspectRatio\<close> returns false, the pivot is the centre (5,5) and both ratios
  are 2. The drag succeeds, and the vertices of the square go to (-5,-5), (15,-5),
  (15,15), (-5,15): the corner (10,10) to (15,15) and the corner (0,0) to (-5,-5).
\<close>

theorem C7_square_corner_scale:
  "raw_scale (Fin 5, Fin 5) (coordinate (pointer 10 10)) (pointer 15 15) = (Fin 2, Fin 2) \<and>
   do {
     s1 \<leftarrow> select new_interaction (Some 0);
     (s2, drag) \<leftarrow> handleDownEvent s1 (pointer 10 10) (corner_hit 2);
     s3 \<leftarrow> handleDragEvent s2 (pointer 15 15);
     g \<leftarrow> store s3 0;
     Some (\<lparr>m_geometry = OlGeomPoint (Some (Fin 10, Fin 10)), m_handle = Some ''scale'',
             m_constraint = None, m_option = Some 2\<rparr> \<in> set (handles s1),
           drag, this_constraint s2, call_cond (get_keepAspectRatio s2) (pointer 15 15),
           scale_pivot s2 (pointer 15 15), zip (ring square) (ring g))
   } = Some (True, True, None, Some False, Some (Fin 5, Fin 5),
         [((Fin 0, Fin 0), (Fin (- 5), Fin (- 5))),
          ((Fin 10, Fin 0), (Fin 15, Fin (- 5))),
          ((Fin 10, Fin 10), (Fin 15, Fin 15)),
          ((Fin 0, Fin 10), (Fin (- 5), Fin 15)),
          ((Fin 0, Fin 0), (Fin (- 5), Fin (- 5)))])"
proof -
  have raw: "raw_scale (Fin 5, Fin 5) (coordinate (pointer 10 10)) (pointer 15 15) = (Fin 2, Fin 2)"
    by (simp add: raw_scale_def pointer_def minus_num_def)
  have sc: "scale_factors (new_interaction\<lparr>this_constraint := sel_constraint (corner_hit 2)\<rparr>)
      (pointer 15 15) (raw_scale (Fin 5, Fin 5) (coordinate (pointer 10 10)) (pointer 15 15))
      = Some (Fin 2, Fin 2)"
    by (simp add: raw default_factors corner_hit_def truthy_str_def)
  from square_scale_run[of "corner_hit 2" 2 "(Fin 5, Fin 5)" "pointer 15 15" "pointer 10 10"
      "(Fin 2, Fin 2)", OF _ _ _ _ sc]
  obtain s1 s2 s3 where
    "select new_interaction (Some 0) = Some s1"
    "handleDownEvent s1 (pointer 10 10) (corner_hit 2) = Some (s2, True)"
    "handleDragEvent s2 (pointer 15 15) = Some s3"
    "handles s1 = sketch_features new_interaction
         (OlFeature (fromExtent (Fin 0, Fin 0, Fin 10, Fin 10)))
         [(Fin 0, Fin 0), (Fin 0, Fin 10), (Fin 10, Fin 10), (Fin 10, Fin 0), (Fin 0, Fin 0)]"
    "this_constraint s2 = None"
    "get_keepAspectRatio s2 = CFun (\<lambda>e. shiftKey e)"
    "scale_pivot s2 (pointer 15 15) = Some (Fin 5, Fin 5)"
    "store s3 0 = Some (applyTransform (scale_fn (Fin 5, Fin 5) (Fin 2) (Fin 2)) square)"
    by (auto simp: corner_hit_def pointer_def)
  moreover have "\<lparr>m_geometry = OlGeomPoint (Some (Fin 10, Fin 10)), m_handle = Some ''scale'',
             m_constraint = None, m_option = Some 2\<rparr>
     \<in> set (sketch_features new_interaction
         (OlFeature (fromExtent (Fin 0, Fin 0, Fin 10, Fin 10)))
         [(Fin 0, Fin 0), (Fin 0, Fin 10), (Fin 10, Fin 10), (Fin 10, Fin 0), (Fin 0, Fin 0)])"
    by (simp add: sketch_features_def new_interaction_def constructor_def no_options_def
        corner_handle_def upt4)
  ultimately show ?thesis
    by (simp add: raw scale_square_2_2 ring_square ring_square_upd) (simp add: pointer_def)
qed

subsection \<open>Scale: the aspect ratio\<close>

text \<open>
  Claim C1, evaluated where it fails. The square is selected and its corner handle at
  (10,10), which has no constraint, is dragged to (15,20) with no modifier key. The
  property \<^verbatim>\<open>keepAspectRatio\<close> is the default predicate, which returns false on this
  event, and the two ratios are 2 and 3. The event \<^verbatim>\<open>scaling\<close> carries the factors
  (2, 2): line 564 tests \<^verbatim>\<open>keepAspectRatio || keepAspectRatio(evt)\<close>, and the property,
  a function, is truthy, so the predicate is never called.
\<close>

theorem C1_predicate_false_factors_forced:
  "raw_scale (Fin 5, Fin 5) (coordinate (pointer 10 10)) (pointer 15 20) = (Fin 2, Fin 3) \<and>
   do {
     s1 \<leftarrow> select new_interaction (Some 0);
     (s2, drag) \<leftarrow> handleDownEvent s1 (pointer 10 10) (corner_hit 2);
     s3 \<leftarrow> handleDragEvent s2 (pointer 15 20);
     Some (drag, this_constraint s2, call_cond (get_keepAspectRatio s2) (pointer 15 20),
           scale_pivot s2 (pointer 15 20), last (dispatched s3))
   } = Some (True, None, Some False, Some (Fin 5, Fin 5),
         [(''type'', VStr ''scaling''), (''feature'', VFeature (Some 0)),
          (''scale'', VArr (Fin 2, Fin 2)),
          (''pixel'', VArr (Fin 15, Fin 20)), (''coordinate'', VArr (Fin 15, Fin 20))])"
proof -
  have raw: "raw_scale (Fin 5, Fin 5) (coordinate (pointer 10 10)) (pointer 15 20) = (Fin 2, Fin 3)"
    by (simp add: raw_scale_def pointer_def minus_num_def)
  have sc: "scale_factors (new_interaction\<lparr>this_constraint := sel_constraint (corner_hit 2)\<rparr>)
      (pointer 15 20) (raw_scale (Fin 5, Fin 5) (coordinate (pointer 10 10)) (pointer 15 20))
      = Some (Fin 2, Fin 2)"
    by (simp add: raw default_factors corner_hit_def truthy_str_def)
  from square_scale_run[of "corner_hit 2" 2 "(Fin 5, Fin 5)" "pointer 15 20" "pointer 10 10"
      "(Fin 2, Fin 2)", OF _ _ _ _ sc]
  obtain s1 s2 s3 where
    "select new_interaction (Some 0) = Some s1"
    "handleDownEvent s1 (pointer 10 10) (corner_hit 2) = Some (s2, True)"
    "handleDragEvent s2 (pointer 15 20) = Some s3"
    "this_constraint s2 = None"
    "get_keepAspectRatio s2 = CFun (\<lambda>e. shiftKey e)"
    "scale_pivot s2 (pointer 15 20) = Some (Fin 5, Fin 5)"
    "last (dispatched s3) =
        [(''type'', VStr ''scaling''), (''feature'', VFeature (Some 0)), (''scale'', VArr (Fin 2, Fin 2)),
         (''pixel'', VArr (pixel (pointer 15 20))), (''coordinate'', VArr (coordinate (pointer 15 20)))]"
    by (auto simp: corner_hit_def pointer_def)
  then show ?thesis
    by (simp add: raw) (simp add: pointer_def)
qed

subsection \<open>Scale: the constraint of an edge handle\<close>

lemma scale_square_1_2:
  "applyTransform (scale_fn (Fin 5, Fin 5) (Fin 1) (Fin 2)) square =
     square\<lparr>flatCoordinates := [Fin 0, Fin (-5), Fin 10, Fin (-5), Fin 10, Fin 15, Fin 0, Fin 15, Fin 0, Fin (-5)]\<rparr>"
  by (simp add: applyTransform_def scale_fn_def square_def scale_loop_step scale_loop_done
      js_neq_def js_set_def js_nth_def minus_num_def Let_def)

text \<open>
  Claim C2 fails as stated. The handle in the middle of the top edge of the square, at
  (5,10), carries the constraint \<^verbatim>\<open>'h'\<close>. Dragged to (5,15) it gives the factors
  (1, 2): the Y-coordinates 0 and 10 of the square become -5 and 15.
\<close>

theorem C2_horizontal_constraint_changes_y:
  "do {
     s1 \<leftarrow> select new_interaction (Some 0);
     (s2, drag) \<leftarrow> handleDownEvent s1 (pointer 5 10) (edge_hit 1);
     s3 \<leftarrow> handleDragEvent s2 (pointer 5 15);
     g \<leftarrow> store s3 0;
     Some (\<lparr>m_geometry = OlGeomPoint (Some (Fin 5, Fin 10)), m_handle = Some ''scale'',
             m_constraint = Some ''h'', m_option = Some 1\<rparr> \<in> set (handles s1),
           drag, this_constraint s2, map snd (ring square), map snd (ring g),
           last (dispatched s3))
   } = Some (True, True, Some ''h'',
         [Fin 0, Fin 0, Fin 10, Fin 10, Fin 0],
         [Fin (- 5), Fin (- 5), Fin 15, Fin 15, Fin (- 5)],
         [(''type'', VStr ''scaling''), (''feature'', VFeature (Some 0)),
          (''scale'', VArr (Fin 1, Fin 2)),
          (''pixel'', VArr (Fin 5, Fin 15)), (''coordinate'', VArr (Fin 5, Fin 15))])"
proof -
  have raw: "raw_scale (Fin 5, Fin 5) (coordinate (pointer 5 10)) (pointer 5 15) = (NaN, Fin 2)"
    by (simp add: raw_scale_def pointer_def minus_num_def)
  have sc: "scale_factors (new_interaction\<lparr>this_constraint := sel_constraint (edge_hit 1)\<rparr>)
      (pointer 5 15) (raw_scale (Fin 5, Fin 5) (coordinate (pointer 5 10)) (pointer 5 15))
      = Some (Fin 1, Fin 2)"
    by (simp add: raw default_factors edge_hit_def truthy_str_def)
  from square_scale_run[of "edge_hit 1" 1 "(Fin 5, Fin 5)" "pointer 5 15" "pointer 5 10"
      "(Fin 1, Fin 2)", OF _ _ _ _ sc]
  obtain s1 s2 s3 where
    "select new_interaction (Some 0) = Some s1"
    "handleDownEvent s1 (pointer 5 10) (edge_hit 1) = Some (s2, True)"
    "handleDragEvent s2 (pointer 5 15) = Some s3"
    "handles s1 = sketch_features new_interaction
         (OlFeature (fromExtent (Fin 0, Fin 0, Fin 10, Fin 10)))
         [(Fin 0, Fin 0), (Fin 0, Fin 10), (Fin 10, Fin 10), (Fin 10, Fin 0), (Fin 0, Fin 0)]"
    "this_constraint s2 = Some ''h''"
    "store s3 0 = Some (applyTransform (scale_fn (Fin 5, Fin 5) (Fin 1) (Fin 2)) square)"
    "last (dispatched s3) =
        [(''type'', VStr ''scaling''), (''feature'', VFeature (Some 0)), (''scale'', VArr (Fin 1, Fin 2)),
         (''pixel'', VArr (pixel (pointer 5 15))), (''coordinate'', VArr (coordinate (pointer 5 15)))]"
    by (auto simp: edge_hit_def pointer_def)
  moreover have "\<lparr>m_geometry = OlGeomPoint (Some (Fin 5, Fin 10)), m_handle = Some ''scale'',
             m_constraint = Some ''h'', m_option = Some 1\<rparr>
     \<in> set (sketch_features new_interaction
         (OlFeature (fromExtent (Fin 0, Fin 0, Fin 10, Fin 10)))
         [(Fin 0, Fin 0), (Fin 0, Fin 10), (Fin 10, Fin 10), (Fin 10, Fin 0), (Fin 0, Fin 0)])"
    by (simp add: sketch_features_def new_interaction_def constructor_def no_options_def
        midpoint_handle_def upt4)
  ultimately show ?thesis
    by (simp add: scale_square_1_2 ring_square ring_square_upd) (simp add: pointer_def)
qed

subsection \<open>Scale: the pivot\<close>

text \<open>
  Claim C3 fails as stated. The corner handle 2 of the square is grabbed with the
  control key held, and the pointer is then dragged with no modifier key. The pivot of
  that drag is the centre (5,5), not the corner (0,0) of the snapshot extent at the
  index (2 + 2) mod 4: the corner (0,0) of the square moves to (-5,-5).
\<close>

theorem C3_modifier_at_drag_start_only:
  "do {
     s1 \<leftarrow> select new_interaction (Some 0);
     (s2, drag) \<leftarrow> handleDownEvent s1 ((pointer 10 10)\<lparr>ctrlKey := True\<rparr>) (corner_hit 2);
     s3 \<leftarrow> handleDragEvent s2 (pointer 15 15);
     e \<leftarrow> this_extent s2;
     g \<leftarrow> store s3 0;
     Some (drag, this_center s2, nth_opt e ((2 + 2) mod 4), scale_pivot s2 (pointer 15 15),
           zip (ring square) (ring g))
   } = Some (True, Some (Fin 5, Fin 5), Some (Fin 0, Fin 0), Some (Fin 5, Fin 5),
         [((Fin 0, Fin 0), (Fin (- 5), Fin (- 5))),
          ((Fin 10, Fin 0), (Fin 15, Fin (- 5))),
          ((Fin 10, Fin 10), (Fin 15, Fin 15)),
          ((Fin 0, Fin 10), (Fin (- 5), Fin 15)),
          ((Fin 0, Fin 0), (Fin (- 5), Fin (- 5)))])"
proof -
  have sc: "scale_factors (new_interaction\<lparr>this_constraint := sel_constraint (corner_hit 2)\<rparr>)
      (pointer 15 15) (raw_scale (Fin 5, Fin 5) (coordinate ((pointer 10 10)\<lparr>ctrlKey := True\<rparr>)) (pointer 15 15))
      = Some (Fin 2, Fin 2)"
    by (simp add: raw_scale_def pointer_def minus_num_def default_factors corner_hit_def
        truthy_str_def)
  from square_scale_run[of "corner_hit 2" 2 "(Fin 5, Fin 5)" "pointer 15 15"
      "(pointer 10 10)\<lparr>ctrlKey := True\<rparr>" "(Fin 2, Fin 2)", OF _ _ _ _ sc]
  obtain s1 s2 s3 where
    "select new_interaction (Some 0) = Some s1"
    "handleDownEvent s1 ((pointer 10 10)\<lparr>ctrlKey := True\<rparr>) (corner_hit 2) = Some (s2, True)"
    "handleDragEvent s2 (pointer 15 15) = Some s3"
    "this_center s2 = Some (Fin 5, Fin 5)"
    "this_extent s2 = Some [(Fin 0, Fin 0), (Fin 0, Fin 10), (Fin 10, Fin 10), (Fin 10, Fin 0),
                              (Fin 0, Fin 0)]"
    "scale_pivot s2 (pointer 15 15) = Some (Fin 5, Fin 5)"
    "store s3 0 = Some (applyTransform (scale_fn (Fin 5, Fin 5) (Fin 2) (Fin 2)) square)"
    by (auto simp: corner_hit_def pointer_def)
  then show ?thesis
    by (simp add: scale_square_2_2 ring_square ring_square_upd nth_opt_def)
qed

subsection \<open>Scale: what a factor of 1 leaves alone\<close>

lemma length_js_set: "length g \<le> length (js_set g j v)"
  by (simp add: js_set_def)

lemma nth_js_set_other: "k < length g \<Longrightarrow> k \<noteq> j \<Longrightarrow> js_set g j v ! k = g ! k"
  by (simp add: js_set_def nth_append)

lemma scale_loop_keeps_x:
  assumes "i mod dm = 0" "k < length g" "k mod dm \<noteq> 1"
  shows "length g \<le> length (scale_loop c (Fin 1) scy dm i g)
       \<and> scale_loop c (Fin 1) scy dm i g ! k = g ! k"
  using assms
proof (induction c "Fin 1" scy dm i g rule: scale_loop.induct)
  case (1 center scy dm i g)
  show ?case
  proof (cases "dm < 2 \<or> length g \<le> i")
    case True
    then have "scale_loop center (Fin 1) scy dm i g = g" by (rule scale_loop_done)
    then show ?thesis by simp
  next
    case False
    define g'' where "g'' = (if js_neq scy (Fin 1)
        then js_set g (i + 1) (snd center + (js_nth g (i + 1) - snd center) * scy) else g)"
    have step: "scale_loop center (Fin 1) scy dm i g = scale_loop center (Fin 1) scy dm (i + dm) g''"
      using False by (subst scale_loop.simps) (simp add: js_neq_def g''_def Let_def)
    have "(i + 1) mod dm = 1"
      using False "1.prems"(1) by (simp add: mod_Suc)
    with "1.prems"(3) have ne: "k \<noteq> i + 1" by auto
    have len: "length g \<le> length g''"
      by (simp add: g''_def length_js_set)
    have same: "g'' ! k = g ! k"
      using "1.prems"(2) ne by (simp add: g''_def nth_js_set_other)
    have ih: "length g'' \<le> length (scale_loop center (Fin 1) scy dm (i + dm) g'')
       \<and> scale_loop center (Fin 1) scy dm (i + dm) g'' ! k = g'' ! k"
    proof (rule "1.hyps"[OF False, of g g''])
      show "g = (if js_neq (Fin 1) (Fin 1)
                 then js_set g i (fst center + (js_nth g i - fst center) * Fin 1) else g)"
        by (simp add: js_neq_def)
      show "g'' = (if js_neq scy (Fin 1)
                   then js_set g (i + 1) (snd center + (js_nth g (i + 1) - snd center) * scy)
                   else g)"
        by (simp add: g''_def)
      show "(i + dm) mod dm = 0" using "1.prems"(1) by simp
      show "k < length g''" using "1.prems"(2) len by simp
      show "k mod dm \<noteq> 1" by (rule "1.prems"(3))
    qed
    show ?thesis unfolding step using ih len same by simp
  qed
qed


lemma scale_loop_keeps_y:
  assumes "i mod dm = 0" "k < length g" "k mod dm \<noteq> 0"
  shows "length g \<le> length (scale_loop c scx (Fin 1) dm i g)
       \<and> scale_loop c scx (Fin 1) dm i g ! k = g ! k"
  using assms
proof (induction c scx "Fin 1" dm i g rule: scale_loop.induct)
  case (1 center scx dm i g)
  show ?case
  proof (cases "dm < 2 \<or> length g \<le> i")
    case True
    then have "scale_loop center scx (Fin 1) dm i g = g" by (rule scale_loop_done)
    then show ?thesis by simp
  next
    case False
    define g' where "g' = (if js_neq scx (Fin 1)
        then js_set g i (fst center + (js_nth g i - fst center) * scx) else g)"
    have step: "scale_loop center scx (Fin 1) dm i g = scale_loop center scx (Fin 1) dm (i + dm) g'"
      using False by (subst scale_loop.simps) (simp add: js_neq_def g'_def Let_def)
    from "1.prems"(1,3) have ne: "k \<noteq> i" by auto
    have len: "length g \<le> length g'"
      by (simp add: g'_def length_js_set)
    have same: "g' ! k = g ! k"
      using "1.prems"(2) ne by (simp add: g'_def nth_js_set_other)
    have ih: "length g' \<le> length (scale_loop center scx (Fin 1) dm (i + dm) g')
       \<and> scale_loop center scx (Fin 1) dm (i + dm) g' ! k = g' ! k"
    proof (rule "1.hyps"[OF False, of g' g'])
      show "g' = (if js_neq scx (Fin 1)
                 then js_set g i (fst center + (js_nth g i - fst center) * scx) else g)"
        by (simp add: g'_def)
      show "g' = (if js_neq (Fin 1) (Fin 1)
                   then js_set g' (i + 1) (snd center + (js_nth g' (i + 1) - snd center) * Fin 1)
                   else g')"
        by (simp add: js_neq_def)
      show "(i + dm) mod dm = 0" using "1.prems"(1) by simp
      show "k < length g'" using "1.prems"(2) len by simp
      show "k mod dm \<noteq> 0" by (rule "1.prems"(3))
    qed
    show ?thesis unfolding step using ih len same by simp
  qed
qed

lemma scale_fn_keeps_x:
  assumes "k < length g" "k mod dm \<noteq> 1"
  shows "scale_fn c (Fin 1) scy g dm ! k = g ! k"
proof (cases "dm < 2")
  case True
  then show ?thesis by (simp add: scale_fn_def)
next
  case False
  have "(0::nat) mod dm = 0" by simp
  from scale_loop_keeps_x[OF this assms]
  have "scale_loop c (Fin 1) scy dm 0 g ! k = g ! k" by (rule conjunct2)
  with False show ?thesis by (simp add: scale_fn_def)
qed

lemma scale_fn_keeps_y:
  assumes "k < length g" "k mod dm \<noteq> 0"
  shows "scale_fn c scx (Fin 1) g dm ! k = g ! k"
proof (cases "dm < 2")
  case True
  then show ?thesis by (simp add: scale_fn_def)
next
  case False
  have "(0::nat) mod dm = 0" by simp
  from scale_loop_keeps_y[OF this assms]
  have "scale_loop c scx (Fin 1) dm 0 g ! k = g ! k" by (rule conjunct2)
  with False show ?thesis by (simp add: scale_fn_def)
qed

lemma drag_scale_elim:
  assumes "this_mode st = Mode ''scale''" "handleDragEvent st evt = Some st'"
  obtains p start sc g f s1 where
    "scale_pivot st evt = Some p" "this_coordinate st = Some start"
    "scale_factors st evt (raw_scale p start evt) = Some sc" "this_geom st = Some g"
    "this_feature st = Some f"
    "drawSketch (setGeometry st f (applyTransform (scale_fn p (fst sc) (snd sc)) g)) False = Some s1"
    "st' = dispatchEvent s1 [(''type'', VStr ''scaling''), (''feature'', VFeature (this_feature s1)),
       (''scale'', VArr sc), (''pixel'', VArr (pixel evt)), (''coordinate'', VArr (coordinate evt))]"
proof -
  from assms have "\<exists>p start sc g f s1.
    scale_pivot st evt = Some p \<and> this_coordinate st = Some start \<and>
    scale_factors st evt (raw_scale p start evt) = Some sc \<and> this_geom st = Some g \<and>
    this_feature st = Some f \<and>
    drawSketch (setGeometry st f (applyTransform (scale_fn p (fst sc) (snd sc)) g)) False = Some s1 \<and>
    st' = dispatchEvent s1 [(''type'', VStr ''scaling''), (''feature'', VFeature (this_feature s1)),
       (''scale'', VArr sc), (''pixel'', VArr (pixel evt)), (''coordinate'', VArr (coordinate evt))]"
    by (simp add: handleDragEvent_def bind_eq_Some_conv) blast
  then show thesis using that by blast
qed

text \<open>
  Claim C2, amended. A drag event in scale mode whose handle carries a constraint, and
  which does not fail, dispatches \<^verbatim>\<open>scaling\<close> with these factors and replaces the
  geometry of the selection by the transformed snapshot \<open>g\<close>. With the constraint
  \<^verbatim>\<open>'h'\<close> (a handle in the middle of a horizontal edge) the X factor is 1, the Y
  factor is the ratio of line 554, and every number of the snapshot that is not a
  Y-coordinate is unchanged; with any other constraint (\<^verbatim>\<open>'v'\<close>) the Y factor is 1,
  the X factor is the ratio of line 553, and every number that is not an X-coordinate
  is unchanged. The Y-coordinates sit at the indices \<open>k\<close> with \<open>k mod stride = 1\<close>, the
  X-coordinates at those with \<open>k mod stride = 0\<close>.
\<close>

theorem C2_constraint_fixes_its_axis:
  assumes mode: "this_mode st = Mode ''scale''"
    and con: "this_constraint st = Some c" "c \<noteq> []"
    and snap: "this_geom st = Some g"
    and feat: "this_feature st = Some f"
    and drag: "handleDragEvent st evt = Some st'"
  shows "\<exists>p start sc g'.
      scale_pivot st evt = Some p \<and> this_coordinate st = Some start
    \<and> (''scale'', VArr sc) \<in> set (last (dispatched st'))
    \<and> store st' f = Some g'
    \<and> (if c = ''h''
        then sc = (Fin 1, snd (raw_scale p start evt))
           \<and> (\<forall>k < length (flatCoordinates g). k mod stride g \<noteq> 1 \<longrightarrow>
                  flatCoordinates g' ! k = flatCoordinates g ! k)
        else sc = (fst (raw_scale p start evt), Fin 1)
           \<and> (\<forall>k < length (flatCoordinates g). k mod stride g \<noteq> 0 \<longrightarrow>
                  flatCoordinates g' ! k = flatCoordinates g ! k))"
proof -
  from drag_scale_elim[OF mode drag] obtain p start sc g0 f0 s1 where
    p: "scale_pivot st evt = Some p" and start: "this_coordinate st = Some start"
    and sc: "scale_factors st evt (raw_scale p start evt) = Some sc"
    and g0: "this_geom st = Some g0" and f0: "this_feature st = Some f0"
    and d: "drawSketch (setGeometry st f0 (applyTransform (scale_fn p (fst sc) (snd sc)) g0)) False
              = Some s1"
    and st': "st' = dispatchEvent s1 [(''type'', VStr ''scaling''),
       (''feature'', VFeature (this_feature s1)),
       (''scale'', VArr sc), (''pixel'', VArr (pixel evt)), (''coordinate'', VArr (coordinate evt))]"
    by blast
  from g0 f0 snap feat have [simp]: "g0 = g" "f0 = f" by simp_all
  from drawSketch_frame_ex[OF d] obtain H B where
    s1: "s1 = (setGeometry st f (applyTransform (scale_fn p (fst sc) (snd sc)) g))
                \<lparr>handles := H, this_bbox := B\<rparr>"
    by auto
  have store: "store st' f = Some (applyTransform (scale_fn p (fst sc) (snd sc)) g)"
    by (simp add: st' s1 dispatchEvent_def setGeometry_def)
  have ev: "(''scale'', VArr sc) \<in> set (last (dispatched st'))"
    by (simp add: st' dispatchEvent_def)
  have fac: "sc = (if c = ''h'' then (Fin 1, snd (raw_scale p start evt))
                   else (fst (raw_scale p start evt), Fin 1))"
    using sc con by (simp add: scale_factors_def truthy_str_def split: if_splits)
  show ?thesis
  proof (cases "c = ''h''")
    case True
    with fac have "fst sc = Fin 1" by simp
    then have "\<forall>k < length (flatCoordinates g). k mod stride g \<noteq> 1 \<longrightarrow>
        flatCoordinates (applyTransform (scale_fn p (fst sc) (snd sc)) g) ! k = flatCoordinates g ! k"
      by (simp add: applyTransform_def scale_fn_keeps_x)
    with True fac p start ev store show ?thesis by simp
  next
    case False
    with fac have "snd sc = Fin 1" by simp
    then have "\<forall>k < length (flatCoordinates g). k mod stride g \<noteq> 0 \<longrightarrow>
        flatCoordinates (applyTransform (scale_fn p (fst sc) (snd sc)) g) ! k = flatCoordinates g ! k"
      by (simp add: applyTransform_def scale_fn_keeps_y)
    with False fac p start ev store show ?thesis by simp
  qed
qed


text \<open>
  The hypotheses of C2 hold after the top edge handle of the square is grabbed, for the
  drag to (5,15).
\<close>

theorem C2_constraint_fixes_its_axis_witness:
  "\<exists>st st' g.
      this_mode st = Mode ''scale'' \<and> this_constraint st = Some ''h'' \<and> this_geom st = Some g
    \<and> this_feature st = Some 0 \<and> handleDragEvent st (pointer 5 15) = Some st'
    \<and> (\<exists>p start sc g'.
          scale_pivot st (pointer 5 15) = Some p \<and> this_coordinate st = Some start
        \<and> (''scale'', VArr sc) \<in> set (last (dispatched st'))
        \<and> store st' 0 = Some g'
        \<and> sc = (Fin 1, snd (raw_scale p start (pointer 5 15)))
        \<and> (\<forall>k < length (flatCoordinates g). k mod stride g \<noteq> 1 \<longrightarrow>
               flatCoordinates g' ! k = flatCoordinates g ! k))"
proof -
  have sc: "scale_factors (new_interaction\<lparr>this_constraint := sel_constraint (edge_hit 1)\<rparr>)
      (pointer 5 15) (raw_scale (Fin 5, Fin 5) (coordinate (pointer 5 10)) (pointer 5 15))
      = Some (Fin 1, Fin 2)"
    by (simp add: raw_scale_def pointer_def minus_num_def default_factors edge_hit_def
        truthy_str_def)
  from square_scale_run[of "edge_hit 1" 1 "(Fin 5, Fin 5)" "pointer 5 15" "pointer 5 10"
      "(Fin 1, Fin 2)", OF _ _ _ _ sc]
  obtain s2 s3 where
    mode: "this_mode s2 = Mode ''scale''"
    and con: "this_constraint s2 = Some ''h''"
    and snap: "this_geom s2 = Some square"
    and feat: "this_feature s2 = Some 0"
    and drag: "handleDragEvent s2 (pointer 5 15) = Some s3"
    by (auto simp: edge_hit_def pointer_def)
  have ne: "''h'' \<noteq> []" by simp
  from C2_constraint_fixes_its_axis[OF mode con ne snap feat drag]
  have "\<exists>p start sc g'.
          scale_pivot s2 (pointer 5 15) = Some p \<and> this_coordinate s2 = Some start
        \<and> (''scale'', VArr sc) \<in> set (last (dispatched s3))
        \<and> store s3 0 = Some g'
        \<and> sc = (Fin 1, snd (raw_scale p start (pointer 5 15)))
        \<and> (\<forall>k < length (flatCoordinates square). k mod stride square \<noteq> 1 \<longrightarrow>
               flatCoordinates g' ! k = flatCoordinates square ! k)"
    by simp
  with mode con snap feat drag show ?thesis by blast
qed

subsection \<open>Scale: the pivot of each drag event\<close>

lemma down_true_elim:
  assumes "handleDownEvent st evt hit = Some (s1, True)" "this_feature st = Some f"
    "store st f = Some g"
  shows "\<exists>h. s1 = st\<lparr>this_mode := Mode h,
             this_opt := sel_option hit,
             this_constraint := sel_constraint hit,
             this_coordinate := Some (coordinate evt),
             this_pixel := Some (pixel evt),
             this_geom := Some g,
             this_extent := Some (ring (fromExtent (getExtent g))),
             this_center := Some (getCenter (getExtent g)),
             this_angle := Some (Math_atan2 (snd (getCenter (getExtent g)) - snd (coordinate evt))
                                            (fst (getCenter (getExtent g)) - fst (coordinate evt))),
             dispatched := dispatched st @
               [[(''type'', VStr (h @ ''start'')), (''feature'', VFeature (Some f)),
                 (''pixel'', VArr (pixel evt)), (''coordinate'', VArr (coordinate evt))]]\<rparr>"
proof -
  define sel where "sel = click_to_translate st hit"
  have opt: "sel_option sel = sel_option hit" "sel_constraint sel = sel_constraint hit"
    by (simp_all add: sel_def click_to_translate_def)
  have t: "truthy_str (sel_handle sel)"
  proof (rule ccontr)
    assume "\<not> truthy_str (sel_handle sel)"
    with assms(1) show False
      by (simp add: handleDownEvent_def Let_def sel_def[symmetric] bind_eq_Some_conv)
  qed
  then obtain h where h: "sel_handle sel = Some h"
    by (cases "sel_handle sel") (simp_all add: truthy_str_def)
  from assms t h have "s1 = st\<lparr>this_mode := Mode h,
             this_opt := sel_option sel,
             this_constraint := sel_constraint sel,
             this_coordinate := Some (coordinate evt),
             this_pixel := Some (pixel evt),
             this_geom := Some g,
             this_extent := Some (ring (fromExtent (getExtent g))),
             this_center := Some (getCenter (getExtent g)),
             this_angle := Some (Math_atan2 (snd (getCenter (getExtent g)) - snd (coordinate evt))
                                            (fst (getCenter (getExtent g)) - fst (coordinate evt))),
             dispatched := dispatched st @
               [[(''type'', VStr (h @ ''start'')), (''feature'', VFeature (Some f)),
                 (''pixel'', VArr (pixel evt)), (''coordinate'', VArr (coordinate evt))]]\<rparr>"
    by (simp add: handleDownEvent_def Let_def sel_def[symmetric] dispatchEvent_def)
  then show ?thesis unfolding opt by (rule exI[of _ h])
qed


lemma length_ring_fromExtent: "length (ring (fromExtent e)) = 5"
  by (cases e) (simp add: ring_fromExtent)

lemma scale_drag_keeps_snapshot:
  assumes mode: "this_mode st = Mode ''scale''" and drag: "handleDragEvent st evt = Some st'"
  shows "this_mode st' = Mode ''scale'' \<and> this_center st' = this_center st
       \<and> this_extent st' = this_extent st \<and> this_opt st' = this_opt st
       \<and> this_geom st' = this_geom st \<and> this_coordinate st' = this_coordinate st
       \<and> this_feature st' = this_feature st \<and> this_constraint st' = this_constraint st
       \<and> get_keepAspectRatio st' = get_keepAspectRatio st \<and> this_ispt st' = this_ispt st"
proof -
  from drag_scale_elim[OF mode drag] obtain p start sc g f s1 where
    "scale_pivot st evt = Some p" "this_coordinate st = Some start"
    "scale_factors st evt (raw_scale p start evt) = Some sc" "this_geom st = Some g"
    "this_feature st = Some f" and
    d: "drawSketch (setGeometry st f (applyTransform (scale_fn p (fst sc) (snd sc)) g)) False
              = Some s1"
    and st': "st' = dispatchEvent s1 [(''type'', VStr ''scaling''),
       (''feature'', VFeature (this_feature s1)),
       (''scale'', VArr sc), (''pixel'', VArr (pixel evt)), (''coordinate'', VArr (coordinate evt))]"
    by blast
  from drawSketch_frame_ex[OF d] obtain H B where
    "s1 = (setGeometry st f (applyTransform (scale_fn p (fst sc) (snd sc)) g))
             \<lparr>handles := H, this_bbox := B\<rparr>"
    by blast
  then show ?thesis
    by (simp add: st' dispatchEvent_def setGeometry_def mode)
qed

lemma scale_drags_keep_snapshot:
  assumes "this_mode st = Mode ''scale''" "drags st evs = Some st'"
  shows "this_mode st' = Mode ''scale'' \<and> this_center st' = this_center st
       \<and> this_extent st' = this_extent st \<and> this_opt st' = this_opt st
       \<and> this_geom st' = this_geom st \<and> this_coordinate st' = this_coordinate st
       \<and> this_feature st' = this_feature st \<and> this_constraint st' = this_constraint st
       \<and> get_keepAspectRatio st' = get_keepAspectRatio st \<and> this_ispt st' = this_ispt st"
  using assms
proof (induction evs arbitrary: st)
  case Nil
  then show ?case by simp
next
  case (Cons e es)
  from Cons.prems(2) obtain s where
    e: "handleDragEvent st e = Some s" and es: "drags s es = Some st'"
    by (auto split: option.splits)
  note k = scale_drag_keeps_snapshot[OF Cons.prems(1) e]
  from k have m: "this_mode s = Mode ''scale''" by (rule conjunct1)
  from Cons.IH[OF m es] k show ?case by simp
qed

text \<open>
  Claim C3, amended. A pointer-down starts a scale gesture on the selected feature,
  whose geometry is then \<open>g\<close>, with a handle whose option is \<open>i\<close>. After any number
  of drag events of that gesture, the pivot of the next drag event is decided by the
  modifier keys of that event, whatever keys the pointer-down and the earlier drag
  events had: with neither the meta nor the control key it is the centre of the extent
  of \<open>g\<close>, and with one of them it is the corner of the extent of \<open>g\<close> at the index
  \<open>(i + 2) mod 4\<close>. Centre and corner are those of the snapshot \<open>g\<close> taken at the
  pointer-down, not of the geometry the earlier drag events have left. The factors are
  computed from the ratios about that pivot, with the coordinate of the pointer-down
  as the start, and the drag replaces the geometry of the selection by the snapshot
  \<open>g\<close> transformed about that pivot.
\<close>

theorem C3_pivot_of_each_drag:
  assumes down: "handleDownEvent st dn hit = Some (s1, True)"
    and feat: "this_feature st = Some f"
    and geo: "store st f = Some g"
    and opt: "sel_option hit = Some i"
    and mode: "this_mode s1 = Mode ''scale''"
    and before: "drags s1 evs = Some sk"
    and drag: "handleDragEvent sk ev = Some s2"
    and p: "p = (if metaKey ev \<or> ctrlKey ev
                 then ring (fromExtent (getExtent g)) ! ((i + 2) mod 4)
                 else getCenter (getExtent g))"
  shows "scale_pivot sk ev = Some p
       \<and> (\<exists>sc. scale_factors sk ev (raw_scale p (coordinate dn) ev) = Some sc
               \<and> (''scale'', VArr sc) \<in> set (last (dispatched s2))
               \<and> store s2 f = Some (applyTransform (scale_fn p (fst sc) (snd sc)) g))"
proof -
  from down_true_elim[OF down feat geo] obtain h where
    s1: "s1 = st\<lparr>this_mode := Mode h,
             this_opt := sel_option hit,
             this_constraint := sel_constraint hit,
             this_coordinate := Some (coordinate dn),
             this_pixel := Some (pixel dn),
             this_geom := Some g,
             this_extent := Some (ring (fromExtent (getExtent g))),
             this_center := Some (getCenter (getExtent g)),
             this_angle := Some (Math_atan2 (snd (getCenter (getExtent g)) - snd (coordinate dn))
                                            (fst (getCenter (getExtent g)) - fst (coordinate dn))),
             dispatched := dispatched st @
               [[(''type'', VStr (h @ ''start'')), (''feature'', VFeature (Some f)),
                 (''pixel'', VArr (pixel dn)), (''coordinate'', VArr (coordinate dn))]]\<rparr>"
    by blast
  have f1: "this_opt s1 = Some i" "this_extent s1 = Some (ring (fromExtent (getExtent g)))"
    "this_center s1 = Some (getCenter (getExtent g))" "this_geom s1 = Some g"
    "this_feature s1 = Some f" "this_coordinate s1 = Some (coordinate dn)"
    by (simp_all add: s1 opt feat)
  note k = scale_drags_keep_snapshot[OF mode before]
  from k f1 have fk: "this_opt sk = Some i"
    "this_extent sk = Some (ring (fromExtent (getExtent g)))"
    "this_center sk = Some (getCenter (getExtent g))" "this_geom sk = Some g"
    "this_feature sk = Some f" "this_coordinate sk = Some (coordinate dn)"
    by simp_all
  from k have modek: "this_mode sk = Mode ''scale''" by (rule conjunct1)
  have "(i + 2) mod 4 < 5"
    using mod_less_divisor[of 4 "i + 2"] by linarith
  then have nth: "nth_opt (ring (fromExtent (getExtent g))) ((i + 2) mod 4)
      = Some (ring (fromExtent (getExtent g)) ! ((i + 2) mod 4))"
    unfolding nth_opt_def by (simp add: length_ring_fromExtent)
  have piv: "scale_pivot sk ev = Some p"
    unfolding scale_pivot_def fk p using nth by simp
  from drag_scale_elim[OF modek drag] obtain p0 start sc g0 f0 s where
    p0: "scale_pivot sk ev = Some p0" and start: "this_coordinate sk = Some start"
    and sc: "scale_factors sk ev (raw_scale p0 start ev) = Some sc"
    and g0: "this_geom sk = Some g0" and f0: "this_feature sk = Some f0"
    and d: "drawSketch (setGeometry sk f0 (applyTransform (scale_fn p0 (fst sc) (snd sc)) g0)) False
              = Some s"
    and s2: "s2 = dispatchEvent s [(''type'', VStr ''scaling''),
       (''feature'', VFeature (this_feature s)),
       (''scale'', VArr sc), (''pixel'', VArr (pixel ev)), (''coordinate'', VArr (coordinate ev))]"
    by blast
  from p0 piv have pp: "p0 = p" by simp
  from g0 fk(4) have gg: "g0 = g" by simp
  from f0 fk(5) have ff: "f0 = f" by simp
  from start fk(6) have ss: "start = coordinate dn" by simp
  from drawSketch_frame_ex[OF d] obtain H B where
    "s = (setGeometry sk f (applyTransform (scale_fn p (fst sc) (snd sc)) g))
                \<lparr>handles := H, this_bbox := B\<rparr>"
    unfolding pp gg ff by blast
  then have "store s2 f = Some (applyTransform (scale_fn p (fst sc) (snd sc)) g)"
    "(''scale'', VArr sc) \<in> set (last (dispatched s2))"
    by (simp_all add: s2 dispatchEvent_def setGeometry_def)
  with sc have "scale_factors sk ev (raw_scale p (coordinate dn) ev) = Some sc
               \<and> (''scale'', VArr sc) \<in> set (last (dispatched s2))
               \<and> store s2 f = Some (applyTransform (scale_fn p (fst sc) (snd sc)) g)"
    unfolding pp ss by simp
  then have "\<exists>sc. scale_factors sk ev (raw_scale p (coordinate dn) ev) = Some sc
               \<and> (''scale'', VArr sc) \<in> set (last (dispatched s2))
               \<and> store s2 f = Some (applyTransform (scale_fn p (fst sc) (snd sc)) g)"
    by (rule exI)
  with piv show ?thesis by (rule conjI)
qed


text \<open>A second drag on the square, after the corner handle 2 was grabbed and dragged once.\<close>

lemma scale_factors_total:
  "truthy_cond (get_keepAspectRatio st) \<Longrightarrow> \<exists>sc. scale_factors st ev raw = Some sc"
  by (simp add: scale_factors_def keepAspect_def)

lemma drag_scale_total:
  assumes mode: "this_mode st = Mode ''scale''" and p: "scale_pivot st ev = Some p"
    and start: "this_coordinate st = Some start"
    and k: "truthy_cond (get_keepAspectRatio st)"
    and g: "this_geom st = Some g" and f: "this_feature st = Some f"
    and np: "\<not> this_ispt st"
  shows "\<exists>s'. handleDragEvent st ev = Some s'"
proof -
  from scale_factors_total[OF k] obtain sc where
    sc: "scale_factors st ev (raw_scale p start ev) = Some sc" by blast
  define st1 where "st1 = setGeometry st f (applyTransform (scale_fn p (fst sc) (snd sc)) g)"
  have "this_feature st1 = Some f"
    "store st1 f = Some (applyTransform (scale_fn p (fst sc) (snd sc)) g)" "\<not> this_ispt st1"
    by (simp_all add: st1_def setGeometry_def f np)
  from drawSketch_full_nonpoint[OF this] obtain s1 where
    "drawSketch (setGeometry st f (applyTransform (scale_fn p (fst sc) (snd sc)) g)) False = Some s1"
    unfolding st1_def by blast
  from drag_scale[OF mode p start sc g f this] show ?thesis by blast
qed

lemma square_second_drag:
  assumes p1: "p1 = (if metaKey e1 \<or> ctrlKey e1 then (Fin 0, Fin 0) else (Fin 5, Fin 5))"
    and sc1: "scale_factors (new_interaction\<lparr>this_constraint := sel_constraint (corner_hit 2)\<rparr>)
                e1 (raw_scale p1 (coordinate dn) e1) = Some sc1"
  shows "\<exists>st s1 sk s2.
      handleDownEvent st dn (corner_hit 2) = Some (s1, True)
    \<and> this_feature st = Some 0 \<and> store st 0 = Some square
    \<and> this_mode s1 = Mode ''scale''
    \<and> drags s1 [e1] = Some sk
    \<and> handleDragEvent sk ev = Some s2
    \<and> store sk 0 = Some (applyTransform (scale_fn p1 (fst sc1) (snd sc1)) square)"
proof -
  have p1': "p1 = (if metaKey e1 \<or> ctrlKey e1
                 then [(Fin 0, Fin 0), (Fin 0, Fin 10), (Fin 10, Fin 10), (Fin 10, Fin 0),
                       (Fin 0, Fin 0)] ! ((2 + 2) mod 4)
                 else (Fin 5, Fin 5))"
    by (simp add: p1)
  have hit: "sel_handle (corner_hit 2) = Some ''scale''" "sel_feature (corner_hit 2) = None"
    "sel_option (corner_hit 2) = Some 2"
    by (simp_all add: corner_hit_def)
  from square_scale_run[OF hit p1' sc1] obtain st s1 sk where
    sel: "select new_interaction (Some 0) = Some st"
    and down: "handleDownEvent st dn (corner_hit 2) = Some (s1, True)"
    and d1: "handleDragEvent s1 e1 = Some sk"
    and "handles st = sketch_features new_interaction
         (OlFeature (fromExtent (Fin 0, Fin 0, Fin 10, Fin 10)))
         [(Fin 0, Fin 0), (Fin 0, Fin 10), (Fin 10, Fin 10), (Fin 10, Fin 0), (Fin 0, Fin 0)]"
    and mode: "this_mode s1 = Mode ''scale''"
    and "this_constraint s1 = sel_constraint (corner_hit 2)"
    and k1: "get_keepAspectRatio s1 = CFun (\<lambda>e. shiftKey e)"
    and c1: "this_center s1 = Some (Fin 5, Fin 5)"
    and co1: "this_coordinate s1 = Some (coordinate dn)"
    and g1: "this_geom s1 = Some square"
    and fe1: "this_feature s1 = Some 0"
    and "store s1 0 = Some square"
    and np1: "\<not> this_ispt s1"
    and o1: "this_opt s1 = Some 2"
    and e1: "this_extent s1 = Some [(Fin 0, Fin 0), (Fin 0, Fin 10), (Fin 10, Fin 10),
                (Fin 10, Fin 0), (Fin 0, Fin 0)]"
    and "scale_pivot s1 e1 = Some p1"
    and live: "store sk 0 = Some (applyTransform (scale_fn p1 (fst sc1) (snd sc1)) square)"
    and "last (dispatched sk) =
        [(''type'', VStr ''scaling''), (''feature'', VFeature (Some 0)), (''scale'', VArr sc1),
         (''pixel'', VArr (pixel e1)), (''coordinate'', VArr (coordinate e1))]"
    by blast
  from select_frame[OF sel] obtain I H B where
    "st = new_interaction\<lparr>this_feature := Some 0, this_ispt := I, handles := H, this_bbox := B,
           dispatched := dispatched new_interaction
             @ [[(''type'', VStr ''select''), (''feature'', VFeature (Some 0))]]\<rparr>"
    by blast
  then have feat: "this_feature st = Some 0" and geo: "store st 0 = Some square"
    by (simp_all add: new_interaction_def constructor_def square_layer_def)
  have ds: "drags s1 [e1] = Some sk"
    by (simp add: d1)
  note k = scale_drag_keeps_snapshot[OF mode d1]
  from k mode c1 co1 g1 fe1 np1 o1 e1 k1 have fk:
    "this_mode sk = Mode ''scale''" "this_center sk = Some (Fin 5, Fin 5)"
    "this_coordinate sk = Some (coordinate dn)" "this_geom sk = Some square"
    "this_feature sk = Some 0" "\<not> this_ispt sk" "this_opt sk = Some 2"
    "this_extent sk = Some [(Fin 0, Fin 0), (Fin 0, Fin 10), (Fin 10, Fin 10),
                (Fin 10, Fin 0), (Fin 0, Fin 0)]"
    "truthy_cond (get_keepAspectRatio sk)"
    by simp_all
  have "\<exists>q. scale_pivot sk ev = Some q"
    by (simp add: scale_pivot_def fk nth_opt_def)
  then obtain q where q: "scale_pivot sk ev = Some q" by blast
  from drag_scale_total[OF fk(1) q fk(3) fk(9) fk(4) fk(5) fk(6)] obtain s2 where
    "handleDragEvent sk ev = Some s2" by blast
  with down feat geo mode ds live show ?thesis by blast
qed


lemma scale_square_corner_3_2:
  "applyTransform (scale_fn (Fin 0, Fin 0) (Fin (3 / 2)) (Fin (3 / 2))) square =
     square\<lparr>flatCoordinates := [Fin 0, Fin 0, Fin 15, Fin 0, Fin 15, Fin 15, Fin 0, Fin 15, Fin 0, Fin 0]\<rparr>"
  by (simp add: applyTransform_def scale_fn_def square_def scale_loop_step scale_loop_done
      js_neq_def js_set_def js_nth_def minus_num_def Let_def)

lemma getExtent_square_upd:
  "getExtent (square\<lparr>flatCoordinates := [Fin a0, Fin b0, Fin a1, Fin b1, Fin a2, Fin b2,
                                          Fin a3, Fin b3, Fin a4, Fin b4]\<rparr>) =
     (Fin (min (min (min (min a0 a1) a2) a3) a4), Fin (min (min (min (min b0 b1) b2) b3) b4),
      Fin (max (max (max (max a0 a1) a2) a3) a4), Fin (max (max (max (max b0 b1) b2) b3) b4))"
  by (simp add: square_def getExtent_def offsets_def extendXY_def createEmpty_def js_nth_def
      upt5)

text \<open>
  The hypotheses of C3 hold on the square, in both branches. After a first drag with
  the control key, which moves the centre of the live geometry to (7.5,7.5), a drag
  without a key has the snapshot centre (5,5) as pivot. After a first drag without a
  key, which moves the corner 0 of the live extent to (-5,-5), a drag with the control
  key has the snapshot corner (0,0) as pivot.
\<close>

theorem C3_pivot_of_each_drag_witness:
  "(\<exists>st s1 sk s2.
      handleDownEvent st (pointer 10 10) (corner_hit 2) = Some (s1, True)
    \<and> this_feature st = Some 0 \<and> store st 0 = Some square
    \<and> sel_option (corner_hit 2) = Some 2
    \<and> this_mode s1 = Mode ''scale''
    \<and> drags s1 [(pointer 15 15)\<lparr>ctrlKey := True\<rparr>] = Some sk
    \<and> handleDragEvent sk (pointer 15 15) = Some s2
    \<and> map_option (\<lambda>live. getCenter (getExtent live)) (store sk 0)
          = Some (Fin (15 / 2), Fin (15 / 2))
    \<and> scale_pivot sk (pointer 15 15) = Some (Fin 5, Fin 5)
    \<and> (\<exists>sc. store s2 0 =
           Some (applyTransform (scale_fn (Fin 5, Fin 5) (fst sc) (snd sc)) square)))
 \<and> (\<exists>st s1 sk s2.
      handleDownEvent st (pointer 10 10) (corner_hit 2) = Some (s1, True)
    \<and> this_feature st = Some 0 \<and> store st 0 = Some square
    \<and> sel_option (corner_hit 2) = Some 2
    \<and> this_mode s1 = Mode ''scale''
    \<and> drags s1 [pointer 15 15] = Some sk
    \<and> handleDragEvent sk ((pointer 15 15)\<lparr>ctrlKey := True\<rparr>) = Some s2
    \<and> map_option (\<lambda>live. ring (fromExtent (getExtent live)) ! ((2 + 2) mod 4)) (store sk 0)
          = Some (Fin (- 5), Fin (- 5))
    \<and> scale_pivot sk ((pointer 15 15)\<lparr>ctrlKey := True\<rparr>) = Some (Fin 0, Fin 0)
    \<and> (\<exists>sc. store s2 0 =
           Some (applyTransform (scale_fn (Fin 0, Fin 0) (fst sc) (snd sc)) square)))"
proof (rule conjI)
  have opt: "sel_option (corner_hit 2) = Some 2" by (simp add: corner_hit_def)
  have p1: "(Fin 0, Fin 0) =
      (if metaKey ((pointer 15 15)\<lparr>ctrlKey := True\<rparr>) \<or> ctrlKey ((pointer 15 15)\<lparr>ctrlKey := True\<rparr>)
       then (Fin 0, Fin 0) else (Fin 5, Fin 5))"
    by simp
  have sc1: "scale_factors (new_interaction\<lparr>this_constraint := sel_constraint (corner_hit 2)\<rparr>)
      ((pointer 15 15)\<lparr>ctrlKey := True\<rparr>)
      (raw_scale (Fin 0, Fin 0) (coordinate (pointer 10 10)) ((pointer 15 15)\<lparr>ctrlKey := True\<rparr>))
      = Some (Fin (3 / 2), Fin (3 / 2))"
    by (simp add: raw_scale_def pointer_def minus_num_def default_factors corner_hit_def
        truthy_str_def)
  from square_second_drag[OF p1 sc1, of "pointer 15 15"] obtain st s1 sk s2 where
    down: "handleDownEvent st (pointer 10 10) (corner_hit 2) = Some (s1, True)"
    and feat: "this_feature st = Some 0" and geo: "store st 0 = Some square"
    and mode: "this_mode s1 = Mode ''scale''"
    and before: "drags s1 [(pointer 15 15)\<lparr>ctrlKey := True\<rparr>] = Some sk"
    and drag: "handleDragEvent sk (pointer 15 15) = Some s2"
    and live: "store sk 0 = Some (applyTransform (scale_fn (Fin 0, Fin 0)
        (fst (Fin (3 / 2), Fin (3 / 2))) (snd (Fin (3 / 2), Fin (3 / 2)))) square)"
    by blast
  have c: "map_option (\<lambda>live. getCenter (getExtent live)) (store sk 0)
          = Some (Fin (15 / 2), Fin (15 / 2))"
    by (simp add: live scale_square_corner_3_2 getExtent_square_upd getCenter_def)
  have p: "(Fin 5, Fin 5) =
     (if metaKey (pointer 15 15) \<or> ctrlKey (pointer 15 15)
      then ring (fromExtent (getExtent square)) ! ((2 + 2) mod 4)
      else getCenter (getExtent square))"
    by (simp add: pointer_def getExtent_square getCenter_square)
  from C3_pivot_of_each_drag[OF down feat geo opt mode before drag p]
  have "scale_pivot sk (pointer 15 15) = Some (Fin 5, Fin 5)"
    "\<exists>sc. store s2 0 =
           Some (applyTransform (scale_fn (Fin 5, Fin 5) (fst sc) (snd sc)) square)"
    by blast+
  with down feat geo opt mode before drag c
  show "\<exists>st s1 sk s2.
      handleDownEvent st (pointer 10 10) (corner_hit 2) = Some (s1, True)
    \<and> this_feature st = Some 0 \<and> store st 0 = Some square
    \<and> sel_option (corner_hit 2) = Some 2
    \<and> this_mode s1 = Mode ''scale''
    \<and> drags s1 [(pointer 15 15)\<lparr>ctrlKey := True\<rparr>] = Some sk
    \<and> handleDragEvent sk (pointer 15 15) = Some s2
    \<and> map_option (\<lambda>live. getCenter (getExtent live)) (store sk 0)
          = Some (Fin (15 / 2), Fin (15 / 2))
    \<and> scale_pivot sk (pointer 15 15) = Some (Fin 5, Fin 5)
    \<and> (\<exists>sc. store s2 0 =
           Some (applyTransform (scale_fn (Fin 5, Fin 5) (fst sc) (snd sc)) square))"
    by (intro exI[of _ st] exI[of _ s1] exI[of _ sk] exI[of _ s2]) simp
next
  have opt: "sel_option (corner_hit 2) = Some 2" by (simp add: corner_hit_def)
  have p1: "(Fin 5, Fin 5) =
      (if metaKey (pointer 15 15) \<or> ctrlKey (pointer 15 15)
       then (Fin 0, Fin 0) else (Fin 5, Fin 5))"
    by (simp add: pointer_def)
  have sc1: "scale_factors (new_interaction\<lparr>this_constraint := sel_constraint (corner_hit 2)\<rparr>)
      (pointer 15 15)
      (raw_scale (Fin 5, Fin 5) (coordinate (pointer 10 10)) (pointer 15 15))
      = Some (Fin 2, Fin 2)"
    by (simp add: raw_scale_def pointer_def minus_num_def default_factors corner_hit_def
        truthy_str_def)
  from square_second_drag[OF p1 sc1, of "(pointer 15 15)\<lparr>ctrlKey := True\<rparr>"]
  obtain st s1 sk s2 where
    down: "handleDownEvent st (pointer 10 10) (corner_hit 2) = Some (s1, True)"
    and feat: "this_feature st = Some 0" and geo: "store st 0 = Some square"
    and mode: "this_mode s1 = Mode ''scale''"
    and before: "drags s1 [pointer 15 15] = Some sk"
    and drag: "handleDragEvent sk ((pointer 15 15)\<lparr>ctrlKey := True\<rparr>) = Some s2"
    and live: "store sk 0 = Some (applyTransform (scale_fn (Fin 5, Fin 5)
        (fst (Fin 2, Fin 2)) (snd (Fin 2, Fin 2))) square)"
    by blast
  have c: "map_option (\<lambda>live. ring (fromExtent (getExtent live)) ! ((2 + 2) mod 4)) (store sk 0)
          = Some (Fin (- 5), Fin (- 5))"
    by (simp add: live scale_square_2_2 getExtent_square_upd ring_fromExtent)
  have p: "(Fin 0, Fin 0) =
     (if metaKey ((pointer 15 15)\<lparr>ctrlKey := True\<rparr>) \<or> ctrlKey ((pointer 15 15)\<lparr>ctrlKey := True\<rparr>)
      then ring (fromExtent (getExtent square)) ! ((2 + 2) mod 4)
      else getCenter (getExtent square))"
    by (simp add: getExtent_square ring_fromExtent)
  from C3_pivot_of_each_drag[OF down feat geo opt mode before drag p]
  have "scale_pivot sk ((pointer 15 15)\<lparr>ctrlKey := True\<rparr>) = Some (Fin 0, Fin 0)"
    "\<exists>sc. store s2 0 =
           Some (applyTransform (scale_fn (Fin 0, Fin 0) (fst sc) (snd sc)) square)"
    by blast+
  with down feat geo opt mode before drag c
  show "\<exists>st s1 sk s2.
      handleDownEvent st (pointer 10 10) (corner_hit 2) = Some (s1, True)
    \<and> this_feature st = Some 0 \<and> store st 0 = Some square
    \<and> sel_option (corner_hit 2) = Some 2
    \<and> this_mode s1 = Mode ''scale''
    \<and> drags s1 [pointer 15 15] = Some sk
    \<and> handleDragEvent sk ((pointer 15 15)\<lparr>ctrlKey := True\<rparr>) = Some s2
    \<and> map_option (\<lambda>live. ring (fromExtent (getExtent live)) ! ((2 + 2) mod 4)) (store sk 0)
          = Some (Fin (- 5), Fin (- 5))
    \<and> scale_pivot sk ((pointer 15 15)\<lparr>ctrlKey := True\<rparr>) = Some (Fin 0, Fin 0)
    \<and> (\<exists>sc. store s2 0 =
           Some (applyTransform (scale_fn (Fin 0, Fin 0) (fst sc) (snd sc)) square))"
    by (intro exI[of _ st] exI[of _ s1] exI[of _ sk] exI[of _ s2]) simp
qed


subsection \<open>What the handlers dispatch and what they leave alone\<close>

lemma drag_rotate_elim:
  assumes "this_mode st = Mode ''rotate''" "handleDragEvent st evt = Some st'"
  obtains c g f s1 where
    "this_center st = Some c" "this_geom st = Some g" "this_feature st = Some f"
    "drawSketch (setGeometry st f
       (rotate_geometry
          (Math_atan2 (snd c - snd (coordinate evt)) (fst c - fst (coordinate evt))
             - ToNumber (this_angle st)) c g)) True = Some s1"
    "st' = dispatchEvent s1 [(''type'', VStr ''rotating''), (''feature'', VFeature (this_feature s1)),
       (''angle'', VNum (Math_atan2 (snd c - snd (coordinate evt)) (fst c - fst (coordinate evt))
             - ToNumber (this_angle s1))),
       (''pixel'', VArr (pixel evt)), (''coordinate'', VArr (coordinate evt))]"
proof -
  from assms have "\<exists>c g f s1.
    this_center st = Some c \<and> this_geom st = Some g \<and> this_feature st = Some f \<and>
    drawSketch (setGeometry st f
       (rotate_geometry
          (Math_atan2 (snd c - snd (coordinate evt)) (fst c - fst (coordinate evt))
             - ToNumber (this_angle st)) c g)) True = Some s1 \<and>
    st' = dispatchEvent s1 [(''type'', VStr ''rotating''), (''feature'', VFeature (this_feature s1)),
       (''angle'', VNum (Math_atan2 (snd c - snd (coordinate evt)) (fst c - fst (coordinate evt))
             - ToNumber (this_angle s1))),
       (''pixel'', VArr (pixel evt)), (''coordinate'', VArr (coordinate evt))]"
    by (simp add: handleDragEvent_def bind_eq_Some_conv Let_def) blast
  then show thesis using that by blast
qed

lemma drag_translate_eq:
  assumes "this_mode st = Mode ''translate''" "this_coordinate st = Some start"
    "this_feature st = Some f" "store st f = Some g"
  shows "handleDragEvent st evt =
    Some (st\<lparr>store := (store st)(f := Some (translate (fst (coordinate evt) - fst start)
                                              (snd (coordinate evt) - snd start) g)),
             handles := map (\<lambda>m. m\<lparr>m_geometry :=
                              translate (fst (coordinate evt) - fst start)
                                        (snd (coordinate evt) - snd start) (m_geometry m)\<rparr>)
                          (handles st),
             this_coordinate := Some (coordinate evt),
             dispatched := dispatched st @
               [[(''type'', VStr ''translating''), (''feature'', VFeature (Some f)),
                 (''delta'', VArr (fst (coordinate evt) - fst start, snd (coordinate evt) - snd start)),
                 (''pixel'', VArr (pixel evt)), (''coordinate'', VArr (coordinate evt))]]\<rparr>)"
  using assms by (simp add: handleDragEvent_def Let_def setGeometry_def dispatchEvent_def)

lemma drag_translate_elim:
  assumes "this_mode st = Mode ''translate''" "handleDragEvent st evt = Some st'"
  obtains start f g where "this_coordinate st = Some start" "this_feature st = Some f"
    "store st f = Some g"
proof -
  from assms have "\<exists>start f g. this_coordinate st = Some start \<and> this_feature st = Some f \<and>
    store st f = Some g"
    by (simp add: handleDragEvent_def bind_eq_Some_conv Let_def) blast
  then show thesis using that by blast
qed

lemma drag_idle:
  assumes "this_mode st \<noteq> Mode ''rotate''" "this_mode st \<noteq> Mode ''translate''"
    "this_mode st \<noteq> Mode ''scale''"
  shows "handleDragEvent st evt = Some st"
  using assms by (simp add: handleDragEvent_def)


lemma drag_frame:
  assumes drag: "handleDragEvent st evt = Some st'"
  shows "this_geom st' = this_geom st \<and> this_feature st' = this_feature st
       \<and> this_mode st' = this_mode st \<and> this_ispt st' = this_ispt st
       \<and> (dispatched st' = dispatched st
          \<or> (\<exists>e. dispatched st' = dispatched st @ [e]
                \<and> {''feature'', ''pixel'', ''coordinate''} \<subseteq> fst ` set e))"
proof -
  consider (rotate) "this_mode st = Mode ''rotate''"
    | (translate) "this_mode st = Mode ''translate''"
    | (scale) "this_mode st = Mode ''scale''"
    | (idle) "this_mode st \<noteq> Mode ''rotate''" "this_mode st \<noteq> Mode ''translate''"
        "this_mode st \<noteq> Mode ''scale''"
    by blast
  then show ?thesis
  proof cases
    case rotate
    from drag_rotate_elim[OF rotate drag] obtain c g f s1 where
      "this_center st = Some c" "this_geom st = Some g" "this_feature st = Some f" and
      d: "drawSketch (setGeometry st f
       (rotate_geometry
          (Math_atan2 (snd c - snd (coordinate evt)) (fst c - fst (coordinate evt))
             - ToNumber (this_angle st)) c g)) True = Some s1"
      and st': "st' = dispatchEvent s1 [(''type'', VStr ''rotating''),
       (''feature'', VFeature (this_feature s1)),
       (''angle'', VNum (Math_atan2 (snd c - snd (coordinate evt)) (fst c - fst (coordinate evt))
             - ToNumber (this_angle s1))),
       (''pixel'', VArr (pixel evt)), (''coordinate'', VArr (coordinate evt))]"
      by blast
    from drawSketch_frame_ex[OF d] obtain H B where
      "s1 = (setGeometry st f
       (rotate_geometry
          (Math_atan2 (snd c - snd (coordinate evt)) (fst c - fst (coordinate evt))
             - ToNumber (this_angle st)) c g))\<lparr>handles := H, this_bbox := B\<rparr>"
      by blast
    then show ?thesis
      by (simp add: st' dispatchEvent_def setGeometry_def)
  next
    case translate
    from drag_translate_elim[OF translate drag] obtain start f g where
      "this_coordinate st = Some start" "this_feature st = Some f" "store st f = Some g"
      by blast
    from drag_translate_eq[OF translate this, of evt] drag
    have "st' = st\<lparr>store := (store st)(f := Some (translate (fst (coordinate evt) - fst start)
                                              (snd (coordinate evt) - snd start) g)),
             handles := map (\<lambda>m. m\<lparr>m_geometry :=
                              translate (fst (coordinate evt) - fst start)
                                        (snd (coordinate evt) - snd start) (m_geometry m)\<rparr>)
                          (handles st),
             this_coordinate := Some (coordinate evt),
             dispatched := dispatched st @
               [[(''type'', VStr ''translating''), (''feature'', VFeature (Some f)),
                 (''delta'', VArr (fst (coordinate evt) - fst start, snd (coordinate evt) - snd start)),
                 (''pixel'', VArr (pixel evt)), (''coordinate'', VArr (coordinate evt))]]\<rparr>"
      by simp
    then show ?thesis by simp
  next
    case scale
    from drag_scale_elim[OF scale drag] obtain p start sc g f s1 where
      "scale_pivot st evt = Some p" "this_coordinate st = Some start"
      "scale_factors st evt (raw_scale p start evt) = Some sc" "this_geom st = Some g"
      "this_feature st = Some f" and
      d: "drawSketch (setGeometry st f (applyTransform (scale_fn p (fst sc) (snd sc)) g)) False
              = Some s1"
      and st': "st' = dispatchEvent s1 [(''type'', VStr ''scaling''),
       (''feature'', VFeature (this_feature s1)),
       (''scale'', VArr sc), (''pixel'', VArr (pixel evt)), (''coordinate'', VArr (coordinate evt))]"
      by blast
    from drawSketch_frame_ex[OF d] obtain H B where
      "s1 = (setGeometry st f (applyTransform (scale_fn p (fst sc) (snd sc)) g))
               \<lparr>handles := H, this_bbox := B\<rparr>"
      by blast
    then show ?thesis
      by (simp add: st' dispatchEvent_def setGeometry_def)
  next
    case idle
    from drag_idle[OF idle, of evt] drag show ?thesis by simp
  qed
qed


lemma down_cases:
  assumes down: "handleDownEvent st evt hit = Some (s1, b)"
  shows "(\<exists>e. dispatched s1 = dispatched st @ [e]
              \<and> map fst e = [''type'', ''feature'', ''pixel'', ''coordinate''])
       \<and> (b \<longrightarrow> (\<exists>f g. this_feature st = Some f \<and> store st f = Some g
                        \<and> this_geom s1 = Some g))"
proof (cases "truthy_str (sel_handle (click_to_translate st hit))")
  case True
  with down have "\<exists>h f g. sel_handle (click_to_translate st hit) = Some h
      \<and> this_feature st = Some f \<and> store st f = Some g \<and> b
      \<and> handleDownEvent st evt hit = Some (s1, True)"
    by (simp add: handleDownEvent_def Let_def bind_eq_Some_conv) blast
  then obtain h f g where f: "this_feature st = Some f" and g: "store st f = Some g"
    and d: "handleDownEvent st evt hit = Some (s1, True)"
    by blast
  from down_true_elim[OF d f g] obtain h' where
    "s1 = st\<lparr>this_mode := Mode h',
             this_opt := sel_option hit,
             this_constraint := sel_constraint hit,
             this_coordinate := Some (coordinate evt),
             this_pixel := Some (pixel evt),
             this_geom := Some g,
             this_extent := Some (ring (fromExtent (getExtent g))),
             this_center := Some (getCenter (getExtent g)),
             this_angle := Some (Math_atan2 (snd (getCenter (getExtent g)) - snd (coordinate evt))
                                            (fst (getCenter (getExtent g)) - fst (coordinate evt))),
             dispatched := dispatched st @
               [[(''type'', VStr (h' @ ''start'')), (''feature'', VFeature (Some f)),
                 (''pixel'', VArr (pixel evt)), (''coordinate'', VArr (coordinate evt))]]\<rparr>"
    by blast
  with f g show ?thesis by simp
next
  case False
  with down have "\<exists>ispt s. 
      drawSketch (st\<lparr>this_feature := sel_feature hit, this_ispt := ispt\<rparr>) False = Some s
      \<and> s1 = dispatchEvent s [(''type'', VStr ''select''), (''feature'', VFeature (this_feature s)),
                (''pixel'', VArr (pixel evt)), (''coordinate'', VArr (coordinate evt))]
      \<and> \<not> b"
    by (simp add: handleDownEvent_def Let_def bind_eq_Some_conv) blast
  then obtain ispt s where
    d: "drawSketch (st\<lparr>this_feature := sel_feature hit, this_ispt := ispt\<rparr>) False = Some s"
    and s1: "s1 = dispatchEvent s [(''type'', VStr ''select''), (''feature'', VFeature (this_feature s)),
                (''pixel'', VArr (pixel evt)), (''coordinate'', VArr (coordinate evt))]"
    and b: "\<not> b"
    by blast
  from drawSketch_frame_ex[OF d] obtain H B where
    "s = st\<lparr>this_feature := sel_feature hit, this_ispt := ispt, handles := H, this_bbox := B\<rparr>"
    by blast
  with s1 b show ?thesis by (simp add: dispatchEvent_def)
qed

lemma up_elim:
  assumes "handleUpEvent st = Some (s', b)"
  shows "\<exists>H B. s' = st\<lparr>dispatched := dispatched st @
            [[(''type'', VStr (mode_string (this_mode st) @ ''end'')),
              (''feature'', VFeature (this_feature st)),
              (''oldgeom'', VGeom (this_geom st))]],
          handles := H, this_bbox := B, this_mode := MNull\<rparr> \<and> \<not> b"
proof -
  from assms obtain s where
    d: "drawSketch (dispatchEvent st
                   [(''type'', VStr (mode_string (this_mode st) @ ''end'')),
                    (''feature'', VFeature (this_feature st)),
                    (''oldgeom'', VGeom (this_geom st))]) False = Some s"
    and s': "s' = s\<lparr>this_mode := MNull\<rparr>" and b: "\<not> b"
    by (auto simp: handleUpEvent_def Let_def bind_eq_Some_conv)
  from drawSketch_frame_ex[OF d] obtain H B where
    "s = (dispatchEvent st
                   [(''type'', VStr (mode_string (this_mode st) @ ''end'')),
                    (''feature'', VFeature (this_feature st)),
                    (''oldgeom'', VGeom (this_geom st))])\<lparr>handles := H, this_bbox := B\<rparr>"
    by blast
  with s' have "s' = st\<lparr>dispatched := dispatched st @
            [[(''type'', VStr (mode_string (this_mode st) @ ''end'')),
              (''feature'', VFeature (this_feature st)),
              (''oldgeom'', VGeom (this_geom st))]],
          handles := H, this_bbox := B, this_mode := MNull\<rparr>"
    by (simp add: dispatchEvent_def)
  with b show ?thesis by blast
qed

text \<open>
  Claim C4, amended. Whenever a call does not fail: \<^verbatim>\<open>handleDownEvent_\<close> dispatches
  one event (\<^verbatim>\<open>select\<close> or a start event) with exactly the keys type, feature, pixel
  and coordinate, and when it starts a gesture the snapshot \<^verbatim>\<open>geom_\<close> is the geometry
  the selected feature has at that moment; \<^verbatim>\<open>handleDragEvent_\<close> keeps the snapshot and
  dispatches nothing or one event that has the keys feature, pixel and coordinate;
  \<^verbatim>\<open>select\<close> dispatches \<^verbatim>\<open>{type: 'select', feature}\<close> and nothing else; and
  \<^verbatim>\<open>handleUpEvent_\<close> dispatches the end event with exactly the keys type, feature and
  oldgeom, where oldgeom is the snapshot, so the geometry from before the gesture, and
  with neither pixel nor coordinate.
\<close>

theorem C4_event_fields:
  "(handleDownEvent st evt hit = Some (s1, b1) \<longrightarrow>
      (\<exists>e. dispatched s1 = dispatched st @ [e]
           \<and> map fst e = [''type'', ''feature'', ''pixel'', ''coordinate''])
      \<and> (b1 \<longrightarrow> (\<exists>f g. this_feature st = Some f \<and> store st f = Some g
                        \<and> this_geom s1 = Some g)))
 \<and> (handleDragEvent st evt = Some s2 \<longrightarrow>
      this_geom s2 = this_geom st
      \<and> (dispatched s2 = dispatched st
         \<or> (\<exists>e. dispatched s2 = dispatched st @ [e]
               \<and> {''feature'', ''pixel'', ''coordinate''} \<subseteq> fst ` set e)))
 \<and> (select st feat = Some s3 \<longrightarrow>
      dispatched s3 = dispatched st
        @ [[(''type'', VStr ''select''), (''feature'', VFeature feat)]])
 \<and> (handleUpEvent st = Some (s4, b4) \<longrightarrow>
      dispatched s4 = dispatched st
        @ [[(''type'', VStr (mode_string (this_mode st) @ ''end'')),
            (''feature'', VFeature (this_feature st)),
            (''oldgeom'', VGeom (this_geom st))]])"
proof (intro conjI impI)
  assume "handleDownEvent st evt hit = Some (s1, b1)"
  from down_cases[OF this]
  show "\<exists>e. dispatched s1 = dispatched st @ [e]
           \<and> map fst e = [''type'', ''feature'', ''pixel'', ''coordinate'']"
    and "b1 \<Longrightarrow> \<exists>f g. this_feature st = Some f \<and> store st f = Some g \<and> this_geom s1 = Some g"
    by blast+
next
  assume "handleDragEvent st evt = Some s2"
  from drag_frame[OF this]
  show "this_geom s2 = this_geom st"
    and "dispatched s2 = dispatched st
         \<or> (\<exists>e. dispatched s2 = dispatched st @ [e]
               \<and> {''feature'', ''pixel'', ''coordinate''} \<subseteq> fst ` set e)"
    by blast+
next
  assume "select st feat = Some s3"
  from select_frame[OF this] obtain I H B where
    "s3 = st\<lparr>this_feature := feat, this_ispt := I, handles := H, this_bbox := B,
           dispatched := dispatched st
             @ [[(''type'', VStr ''select''), (''feature'', VFeature feat)]]\<rparr>"
    by blast
  then show "dispatched s3 = dispatched st
        @ [[(''type'', VStr ''select''), (''feature'', VFeature feat)]]"
    by simp
next
  assume "handleUpEvent st = Some (s4, b4)"
  from up_elim[OF this] obtain H B where
    "s4 = st\<lparr>dispatched := dispatched st @
            [[(''type'', VStr (mode_string (this_mode st) @ ''end'')),
              (''feature'', VFeature (this_feature st)),
              (''oldgeom'', VGeom (this_geom st))]],
          handles := H, this_bbox := B, this_mode := MNull\<rparr>"
    by blast
  then show "dispatched s4 = dispatched st
        @ [[(''type'', VStr (mode_string (this_mode st) @ ''end'')),
            (''feature'', VFeature (this_feature st)),
            (''oldgeom'', VGeom (this_geom st))]]"
    by simp
qed


lemma select_nonpoint:
  assumes "store st f = Some g" "getType g \<noteq> ''Point''"
  shows "\<exists>s. select st (Some f) = Some s"
proof -
  have "is_point st (Some f) = Some False"
    using assms by (simp add: is_point_def)
  moreover have "\<exists>s. drawSketch (st\<lparr>this_feature := Some f, this_ispt := False\<rparr>) False = Some s"
    using drawSketch_full_nonpoint[of "st\<lparr>this_feature := Some f, this_ispt := False\<rparr>" f g]
      assms by simp
  ultimately show ?thesis by (auto simp: select_def)
qed

lemma up_nonpoint:
  assumes "this_feature st = Some f" "store st f = Some g" "\<not> this_ispt st"
  shows "\<exists>s. handleUpEvent st = Some (s, False)"
proof -
  have "\<exists>s. drawSketch (dispatchEvent st
                   [(''type'', VStr (mode_string (this_mode st) @ ''end'')),
                    (''feature'', VFeature (this_feature st)),
                    (''oldgeom'', VGeom (this_geom st))]) False = Some s"
    using drawSketch_full_nonpoint[of "dispatchEvent st
                   [(''type'', VStr (mode_string (this_mode st) @ ''end'')),
                    (''feature'', VFeature (this_feature st)),
                    (''oldgeom'', VGeom (this_geom st))]" f g] assms
    by (simp add: dispatchEvent_def)
  then show ?thesis by (auto simp: handleUpEvent_def Let_def)
qed

lemma square_grab:
  assumes hit: "sel_handle hit = Some ''scale''" "sel_feature hit = None"
  shows "\<exists>s1 s2.
      select new_interaction (Some 0) = Some s1
    \<and> handleDownEvent s1 dn hit = Some (s2, True)
    \<and> this_feature s2 = Some 0 \<and> store s2 0 = Some square \<and> \<not> this_ispt s2
    \<and> this_mode s2 = Mode ''scale'' \<and> this_geom s2 = Some square
    \<and> dispatched s2 =
         [[(''type'', VStr ''select''), (''feature'', VFeature (Some 0))],
          [(''type'', VStr ''scalestart''), (''feature'', VFeature (Some 0)),
           (''pixel'', VArr (pixel dn)), (''coordinate'', VArr (coordinate dn))]]"
proof -
  define s1 where "s1 = new_interaction\<lparr>this_feature := Some 0,
        this_bbox := Some (OlFeature (fromExtent (Fin 0, Fin 0, Fin 10, Fin 10))),
        handles := sketch_features new_interaction (OlFeature (fromExtent (Fin 0, Fin 0, Fin 10, Fin 10)))
            [(Fin 0, Fin 0), (Fin 0, Fin 10), (Fin 10, Fin 10), (Fin 10, Fin 0), (Fin 0, Fin 0)],
        dispatched := [[(''type'', VStr ''select''), (''feature'', VFeature (Some 0))]]\<rparr>"
  have h1: "select new_interaction (Some 0) = Some s1"
    by (simp add: select_square s1_def)
  have f1: "this_feature s1 = Some 0" "store s1 0 = Some square" "\<not> this_ispt s1"
    "dispatched s1 = [[(''type'', VStr ''select''), (''feature'', VFeature (Some 0))]]"
    by (simp_all add: s1_def new_interaction_def constructor_def square_layer_def no_options_def)
  obtain s2 where h2: "handleDownEvent s1 dn hit = Some (s2, True)"
    and s2: "s2 = s1\<lparr>this_mode := Mode ''scale'',
             this_opt := sel_option hit,
             this_constraint := sel_constraint hit,
             this_coordinate := Some (coordinate dn),
             this_pixel := Some (pixel dn),
             this_geom := Some square,
             this_extent := Some (ring (fromExtent (getExtent square))),
             this_center := Some (getCenter (getExtent square)),
             this_angle := Some (Math_atan2 (snd (getCenter (getExtent square)) - snd (coordinate dn))
                                            (fst (getCenter (getExtent square)) - fst (coordinate dn))),
             dispatched := dispatched s1 @
               [[(''type'', VStr (''scale'' @ ''start'')), (''feature'', VFeature (Some 0)),
                 (''pixel'', VArr (pixel dn)), (''coordinate'', VArr (coordinate dn))]]\<rparr>"
    using down_handle[of hit "''scale''" s1 0 square dn] hit f1 by simp
  have "this_feature s2 = Some 0" "store s2 0 = Some square" "\<not> this_ispt s2"
    "this_mode s2 = Mode ''scale''" "this_geom s2 = Some square"
    "dispatched s2 =
         [[(''type'', VStr ''select''), (''feature'', VFeature (Some 0))],
          [(''type'', VStr ''scalestart''), (''feature'', VFeature (Some 0)),
           (''pixel'', VArr (pixel dn)), (''coordinate'', VArr (coordinate dn))]]"
    by (simp_all add: s2 f1)
  with h1 h2 show ?thesis by blast
qed

text \<open>
  Claim C4 fails as stated. The square is selected with \<^verbatim>\<open>select\<close>, a corner handle
  is pressed and the pointer is released. Of the three events dispatched, the first
  (\<^verbatim>\<open>select\<close>) and the last (\<^verbatim>\<open>scaleend\<close>) have neither the key pixel nor the key
  coordinate.
\<close>

theorem C4_end_and_select_lack_pixel:
  "do {
     s1 \<leftarrow> select new_interaction (Some 0);
     (s2, drag) \<leftarrow> handleDownEvent s1 (pointer 10 10) (corner_hit 2);
     (s3, more) \<leftarrow> handleUpEvent s2;
     Some (map (\<lambda>e. (map_of e ''type'', map fst e)) (dispatched s3))
   } = Some [(Some (VStr ''select''), [''type'', ''feature'']),
             (Some (VStr ''scalestart''), [''type'', ''feature'', ''pixel'', ''coordinate'']),
             (Some (VStr ''scaleend''), [''type'', ''feature'', ''oldgeom''])]"
proof -
  from square_grab[of "corner_hit 2" "pointer 10 10"] obtain s1 s2 where
    h1: "select new_interaction (Some 0) = Some s1"
    and h2: "handleDownEvent s1 (pointer 10 10) (corner_hit 2) = Some (s2, True)"
    and f2: "this_feature s2 = Some 0" "store s2 0 = Some square" "\<not> this_ispt s2"
    and m2: "this_mode s2 = Mode ''scale''" and g2: "this_geom s2 = Some square"
    and d2: "dispatched s2 =
         [[(''type'', VStr ''select''), (''feature'', VFeature (Some 0))],
          [(''type'', VStr ''scalestart''), (''feature'', VFeature (Some 0)),
           (''pixel'', VArr (pixel (pointer 10 10))), (''coordinate'', VArr (coordinate (pointer 10 10)))]]"
    by (auto simp: corner_hit_def)
  from up_nonpoint[OF f2] obtain s3 where h3: "handleUpEvent s2 = Some (s3, False)"
    by blast
  from up_elim[OF h3] obtain H B where
    "s3 = s2\<lparr>dispatched := dispatched s2 @
            [[(''type'', VStr (mode_string (this_mode s2) @ ''end'')),
              (''feature'', VFeature (this_feature s2)),
              (''oldgeom'', VGeom (this_geom s2))]],
          handles := H, this_bbox := B, this_mode := MNull\<rparr>"
    by blast
  then have "dispatched s3 = dispatched s2 @
            [[(''type'', VStr ''scaleend''), (''feature'', VFeature (Some 0)),
              (''oldgeom'', VGeom (Some square))]]"
    by (simp add: m2 f2 g2)
  with h1 h2 h3 d2 show ?thesis by simp
qed


text \<open>
  The four hypotheses of C4 hold in the state after the corner handle 2 of the square
  has been grabbed.
\<close>

theorem C4_event_fields_witness:
  "\<exists>st s1 s2 s3 s4.
      handleDownEvent st (pointer 15 15) (corner_hit 2) = Some (s1, True)
    \<and> handleDragEvent st (pointer 15 15) = Some s2
    \<and> select st (Some 0) = Some s3
    \<and> handleUpEvent st = Some (s4, False)
    \<and> (\<exists>e. dispatched s1 = dispatched st @ [e]
           \<and> map fst e = [''type'', ''feature'', ''pixel'', ''coordinate''])
    \<and> (\<exists>f g. this_feature st = Some f \<and> store st f = Some g \<and> this_geom s1 = Some g)
    \<and> this_geom s2 = this_geom st
    \<and> (dispatched s2 = dispatched st
         \<or> (\<exists>e. dispatched s2 = dispatched st @ [e]
               \<and> {''feature'', ''pixel'', ''coordinate''} \<subseteq> fst ` set e))
    \<and> dispatched s3 = dispatched st
          @ [[(''type'', VStr ''select''), (''feature'', VFeature (Some 0))]]
    \<and> dispatched s4 = dispatched st
          @ [[(''type'', VStr (mode_string (this_mode st) @ ''end'')),
              (''feature'', VFeature (this_feature st)),
              (''oldgeom'', VGeom (this_geom st))]]"
proof -
  have sc: "scale_factors (new_interaction\<lparr>this_constraint := sel_constraint (corner_hit 2)\<rparr>)
      (pointer 15 15) (raw_scale (Fin 5, Fin 5) (coordinate (pointer 10 10)) (pointer 15 15))
      = Some (Fin 2, Fin 2)"
    by (simp add: raw_scale_def pointer_def minus_num_def default_factors corner_hit_def
        truthy_str_def)
  from square_scale_run[of "corner_hit 2" 2 "(Fin 5, Fin 5)" "pointer 15 15" "pointer 10 10"
      "(Fin 2, Fin 2)", OF _ _ _ _ sc]
  obtain st s2 where
    f: "this_feature st = Some 0" "store st 0 = Some square" "\<not> this_ispt st"
    and drag: "handleDragEvent st (pointer 15 15) = Some s2"
    by (auto simp: corner_hit_def pointer_def)
  have "sel_handle (corner_hit 2) = Some ''scale''" "''scale'' \<noteq> []"
    "sel_feature (corner_hit 2) \<noteq> Some 0"
    by (simp_all add: corner_hit_def)
  from down_handle[OF this(1,2) f(1,2) this(3), of "pointer 15 15"]
  obtain s1 where down: "handleDownEvent st (pointer 15 15) (corner_hit 2) = Some (s1, True)"
    by blast
  have "getType square \<noteq> ''Point''" by (simp add: square_def)
  from select_nonpoint[OF f(2) this] obtain s3 where sel: "select st (Some 0) = Some s3"
    by blast
  from up_nonpoint[OF f] obtain s4 where up: "handleUpEvent st = Some (s4, False)"
    by blast
  note C4 = C4_event_fields[of st "pointer 15 15" "corner_hit 2" s1 True s2 "Some 0" s3 s4 False]
  from C4 down drag sel up show ?thesis
    by (intro exI[of _ st] exI[of _ s1] exI[of _ s2] exI[of _ s3] exI[of _ s4]) simp
qed

subsection \<open>A drag without a selection\<close>

lemma down_grab:
  assumes "sel_handle (click_to_translate st hit) = Some h" "h \<noteq> []"
    "this_feature st = Some f" "store st f = Some g"
  shows "handleDownEvent st evt hit =
    Some (st\<lparr>this_mode := Mode h,
             this_opt := sel_option hit,
             this_constraint := sel_constraint hit,
             this_coordinate := Some (coordinate evt),
             this_pixel := Some (pixel evt),
             this_geom := Some g,
             this_extent := Some (ring (fromExtent (getExtent g))),
             this_center := Some (getCenter (getExtent g)),
             this_angle := Some (Math_atan2 (snd (getCenter (getExtent g)) - snd (coordinate evt))
                                            (fst (getCenter (getExtent g)) - fst (coordinate evt))),
             dispatched := dispatched st @
               [[(''type'', VStr (h @ ''start'')), (''feature'', VFeature (Some f)),
                 (''pixel'', VArr (pixel evt)), (''coordinate'', VArr (coordinate evt))]]\<rparr>, True)"
proof -
  have "sel_option (click_to_translate st hit) = sel_option hit"
    "sel_constraint (click_to_translate st hit) = sel_constraint hit"
    by (simp_all add: click_to_translate_def)
  with assms show ?thesis
    by (simp add: handleDownEvent_def truthy_str_def dispatchEvent_def Let_def)
qed

lemma square_translate_grab:
  "\<exists>s1 s2.
      select new_interaction (Some 0) = Some s1
    \<and> handleDownEvent s1 dn (feature_hit 0) = Some (s2, True)
    \<and> this_feature s2 = Some 0 \<and> store s2 0 = Some square \<and> \<not> this_ispt s2
    \<and> this_mode s2 = Mode ''translate'' \<and> this_geom s2 = Some square
    \<and> this_coordinate s2 = Some (coordinate dn)"
proof -
  define s1 where "s1 = new_interaction\<lparr>this_feature := Some 0,
        this_bbox := Some (OlFeature (fromExtent (Fin 0, Fin 0, Fin 10, Fin 10))),
        handles := sketch_features new_interaction (OlFeature (fromExtent (Fin 0, Fin 0, Fin 10, Fin 10)))
            [(Fin 0, Fin 0), (Fin 0, Fin 10), (Fin 10, Fin 10), (Fin 10, Fin 0), (Fin 0, Fin 0)],
        dispatched := [[(''type'', VStr ''select''), (''feature'', VFeature (Some 0))]]\<rparr>"
  have h1: "select new_interaction (Some 0) = Some s1"
    by (simp add: select_square s1_def)
  have f1: "this_feature s1 = Some 0" "store s1 0 = Some square" "\<not> this_ispt s1"
    "get_translateFeature s1"
    by (simp_all add: s1_def new_interaction_def constructor_def square_layer_def no_options_def)
  have c: "sel_handle (click_to_translate s1 (feature_hit 0)) = Some ''translate''"
    by (simp add: click_to_translate_def feature_hit_def f1)
  have ne: "''translate'' \<noteq> []" by simp
  note h2 = down_grab[OF c ne f1(1,2), of dn]
  define s2 where "s2 = s1\<lparr>this_mode := Mode ''translate'',
             this_opt := sel_option (feature_hit 0),
             this_constraint := sel_constraint (feature_hit 0),
             this_coordinate := Some (coordinate dn),
             this_pixel := Some (pixel dn),
             this_geom := Some square,
             this_extent := Some (ring (fromExtent (getExtent square))),
             this_center := Some (getCenter (getExtent square)),
             this_angle := Some (Math_atan2 (snd (getCenter (getExtent square)) - snd (coordinate dn))
                                            (fst (getCenter (getExtent square)) - fst (coordinate dn))),
             dispatched := dispatched s1 @
               [[(''type'', VStr (''translate'' @ ''start'')), (''feature'', VFeature (Some 0)),
                 (''pixel'', VArr (pixel dn)), (''coordinate'', VArr (coordinate dn))]]\<rparr>"
  have h2': "handleDownEvent s1 dn (feature_hit 0) = Some (s2, True)"
    unfolding s2_def by (rule h2)
  have "this_feature s2 = Some 0" "store s2 0 = Some square" "\<not> this_ispt s2"
    "this_mode s2 = Mode ''translate''" "this_geom s2 = Some square"
    "this_coordinate s2 = Some (coordinate dn)"
    by (simp_all add: s2_def f1)
  with h1 h2' show ?thesis by blast
qed

lemma drag_translate_null:
  assumes "this_feature st = None" "this_mode st = Mode ''translate''"
  shows "handleDragEvent st evt = None"
  using assms by (simp add: handleDragEvent_def bind_eq_None_conv Let_def)

text \<open>
  Claim C6, amended. \<^verbatim>\<open>handleDragEvent_\<close> has no guard on the selection. With the
  selection \<^verbatim>\<open>null\<close> or \<^verbatim>\<open>undefined\<close>, a drag event in the mode rotate, translate
  or scale ends in a \<^verbatim>\<open>TypeError\<close>; only a drag event in no such mode is a no-op.
\<close>

theorem C6_drag_without_selection:
  assumes "this_feature st = None"
  shows "handleDragEvent st evt =
           (if this_mode st \<in> {Mode ''rotate'', Mode ''translate'', Mode ''scale''}
            then None else Some st)"
  using assms by (simp add: handleDragEvent_def bind_eq_None_conv Let_def)


text \<open>
  Claim C6 fails as stated. The square is selected and pressed (with the default
  options a press on the selected feature starts a translate gesture); \<^verbatim>\<open>select(null)\<close>
  is called before the pointer moves; the next drag event reads
  \<^verbatim>\<open>this.feature_.getGeometry()\<close> on the \<^verbatim>\<open>null\<close> selection and raises.
\<close>

theorem C6_drag_after_deselect_raises:
  "do {
     s1 \<leftarrow> select new_interaction (Some 0);
     (s2, drag) \<leftarrow> handleDownEvent s1 (pointer 5 5) (feature_hit 0);
     s3 \<leftarrow> select s2 None;
     Some (drag, this_mode s3, this_feature s3, handleDragEvent s3 (pointer 6 6))
   } = Some (True, Mode ''translate'', None, None)"
proof -
  from square_translate_grab[of "pointer 5 5"] obtain s1 s2 where
    h1: "select new_interaction (Some 0) = Some s1"
    and h2: "handleDownEvent s1 (pointer 5 5) (feature_hit 0) = Some (s2, True)"
    and m: "this_mode s2 = Mode ''translate''"
    by blast
  define s3 where "s3 = s2\<lparr>this_feature := None, this_ispt := False, handles := [],
              dispatched := dispatched s2
                @ [[(''type'', VStr ''select''), (''feature'', VFeature None)]]\<rparr>"
  have h3: "select s2 None = Some s3"
    by (simp add: select_None s3_def)
  have f3: "this_feature s3 = None" "this_mode s3 = Mode ''translate''"
    by (simp_all add: s3_def m)
  have "handleDragEvent s3 (pointer 6 6) = None"
    by (rule drag_translate_null[OF f3])
  with h1 h2 h3 f3 show ?thesis by simp
qed

text \<open>The hypothesis of C6 holds in a new interaction, where the drag is a no-op.\<close>

theorem C6_drag_without_selection_witness:
  "this_feature new_interaction = None
   \<and> handleDragEvent new_interaction (pointer 6 6) =
       (if this_mode new_interaction \<in> {Mode ''rotate'', Mode ''translate'', Mode ''scale''}
        then None else Some new_interaction)
   \<and> handleDragEvent new_interaction (pointer 6 6) = Some new_interaction"
proof -
  have n: "this_feature new_interaction = None" "this_mode new_interaction = MUndefined"
    by (simp_all add: new_interaction_def constructor_def)
  from C6_drag_without_selection[OF n(1), of "pointer 6 6"] n show ?thesis by simp
qed

subsection \<open>The overlay of a point\<close>

lemma drawSketch_center_point:
  assumes "this_feature st = Some f" "this_ispt st"
  shows "drawSketch st True = Some (st\<lparr>handles := []\<rparr>)"
  using assms by (simp add: drawSketch_def)

lemma drawSketch_point_handles:
  assumes f: "this_feature st = Some f" and p: "this_ispt st"
    and d: "drawSketch st c = Some s"
  shows "map m_handle (handles s) =
           (if c then [] else if get_rotate st then [Some ''rotate''] else [])"
proof (cases c)
  case True
  with d drawSketch_center_point[OF f p] have "s = st\<lparr>handles := []\<rparr>" by simp
  with True show ?thesis by simp
next
  case False
  with d f p obtain fg ext where
    "s = addFeatures (st\<lparr>handles := [], this_bbox := Some (OlFeature (fromExtent ext))\<rparr>)
           (sketch_features (st\<lparr>handles := []\<rparr>) (OlFeature (fromExtent ext))
              (ring (fromExtent ext)))"
    by (auto simp: drawSketch_def Let_def bind_eq_Some_conv)
  with p False show ?thesis
    by (simp add: addFeatures_def sketch_features_def rotate_handle_def)
qed

lemma select_Some_elim:
  assumes "select st (Some f) = Some s1" "store st f = Some g"
  obtains s where
    "drawSketch (st\<lparr>this_feature := Some f, this_ispt := (getType g = ''Point'')\<rparr>) False = Some s"
    "s1 = dispatchEvent s [(''type'', VStr ''select''), (''feature'', VFeature (this_feature s))]"
    "this_feature s1 = Some f" "this_ispt s1 = (getType g = ''Point'')"
    "get_rotate s1 = get_rotate st" "handles s1 = handles s"
proof -
  from assms have "is_point st (Some f) = Some (getType g = ''Point'')"
    by (simp add: is_point_def)
  with assms(1) obtain s where
    d: "drawSketch (st\<lparr>this_feature := Some f, this_ispt := (getType g = ''Point'')\<rparr>) False
          = Some s"
    and s1: "s1 = dispatchEvent s
                [(''type'', VStr ''select''), (''feature'', VFeature (this_feature s))]"
    by (auto simp: select_def bind_eq_Some_conv)
  from drawSketch_frame_ex[OF d] obtain H B where
    "s = st\<lparr>this_feature := Some f, this_ispt := (getType g = ''Point''), handles := H,
            this_bbox := B\<rparr>"
    by blast
  then have "this_feature s1 = Some f" "this_ispt s1 = (getType g = ''Point'')"
    "get_rotate s1 = get_rotate st" "handles s1 = handles s"
    by (simp_all add: s1 dispatchEvent_def)
  with d s1 show thesis by (rule that)
qed

text \<open>
  Claim C5, amended. When \<^verbatim>\<open>select\<close> succeeds on a feature whose geometry is a point,
  the overlay it builds holds the rotate handle alone if the property \<^verbatim>\<open>rotate\<close> is
  set and nothing otherwise: no outline, no scale handle of an edge or a corner, no
  translate handle, no marker \<^verbatim>\<open>rotate0\<close>. Every later redraw of that selection gives
  the same overlay when it is a full redraw and the empty overlay when it is the
  centre-only redraw.
\<close>

theorem C5_point_overlay:
  assumes geo: "store st f = Some g" and pt: "getType g = ''Point''"
    and sel: "select st (Some f) = Some s1"
    and redraw: "drawSketch s1 c = Some s2"
  shows "this_ispt s1
       \<and> map m_handle (handles s1) = (if get_rotate st then [Some ''rotate''] else [])
       \<and> map m_handle (handles s2) =
           (if c then [] else if get_rotate st then [Some ''rotate''] else [])"
proof -
  from select_Some_elim[OF sel geo] obtain s where
    d: "drawSketch (st\<lparr>this_feature := Some f, this_ispt := (getType g = ''Point'')\<rparr>) False
          = Some s"
    and "s1 = dispatchEvent s [(''type'', VStr ''select''), (''feature'', VFeature (this_feature s))]"
    and f1: "this_feature s1 = Some f" "this_ispt s1 = (getType g = ''Point'')"
    "get_rotate s1 = get_rotate st" "handles s1 = handles s"
    by blast
  have h: "map m_handle (handles s) = (if get_rotate st then [Some ''rotate''] else [])"
    using drawSketch_point_handles[OF _ _ d, of f] pt by simp
  from f1(2) pt have p1: "this_ispt s1" by simp
  from drawSketch_point_handles[OF f1(1) p1 redraw] f1 h p1 show ?thesis by simp
qed

lemma point_select:
  "\<exists>s0 s1. setMap (constructor no_options point_layer) unit_map = Some s0
     \<and> store s0 0 = Some point_geom \<and> getType point_geom = ''Point''
     \<and> get_rotate s0
     \<and> select s0 (Some 0) = Some s1"
proof -
  define s0 where "s0 = (constructor no_options point_layer)\<lparr>getMap := Some unit_map\<rparr>"
  have h0: "setMap (constructor no_options point_layer) unit_map = Some s0"
    by (simp add: setMap_def s0_def drawSketch_def constructor_def)
  have f0: "store s0 0 = Some point_geom" "getType point_geom = ''Point''" "get_rotate s0"
    "getMap s0 = Some unit_map"
    by (simp_all add: s0_def constructor_def point_layer_def point_geom_def no_options_def)
  have "\<exists>e. point_extent unit_map (getExtent point_geom) = Some e"
  proof (cases "getExtent point_geom")
    case (fields a b c d)
    then have "point_extent unit_map (getExtent point_geom) =
        Some (boundingExtent [(a - Fin 10, b - Fin 10), (a + Fin 10, b + Fin 10)])"
      by (simp add: point_extent_def unit_map_def)
    then show ?thesis by (rule exI)
  qed
  then have "\<exists>e. sketch_extent (s0\<lparr>this_feature := Some 0, this_ispt := True, handles := []\<rparr>)
      point_geom = Some e"
    by (simp add: sketch_extent_def f0)
  then have "\<exists>s. drawSketch (s0\<lparr>this_feature := Some 0, this_ispt := True\<rparr>) False = Some s"
    by (auto simp: drawSketch_def f0 Let_def)
  then have "\<exists>s1. select s0 (Some 0) = Some s1"
    by (auto simp: select_def is_point_def f0)
  with h0 f0 show ?thesis by blast
qed

text \<open>
  Claim C5 fails as stated. A point is selected on an interaction that has a map; the
  overlay holds the rotate handle. The centre-only redraw of that selection leaves the
  overlay empty: it does not hold a rotate-origin marker.
\<close>

theorem C5_point_center_redraw_is_empty:
  "do {
     s0 \<leftarrow> setMap (constructor no_options point_layer) unit_map;
     s1 \<leftarrow> select s0 (Some 0);
     s2 \<leftarrow> drawSketch s1 True;
     Some (map_option getType (store s1 0), this_feature s1, this_ispt s1,
           map m_handle (handles s1), handles s2)
   } = Some (Some ''Point'', Some 0, True, [Some ''rotate''], [])"
proof -
  from point_select obtain s0 s1 where
    h0: "setMap (constructor no_options point_layer) unit_map = Some s0"
    and g0: "store s0 0 = Some point_geom" and pt: "getType point_geom = ''Point''"
    and r0: "get_rotate s0"
    and h1: "select s0 (Some 0) = Some s1"
    by blast
  from select_Some_elim[OF h1 g0] obtain s where
    d: "drawSketch (s0\<lparr>this_feature := Some 0, this_ispt := (getType point_geom = ''Point'')\<rparr>)
         False = Some s"
    and s1: "s1 = dispatchEvent s [(''type'', VStr ''select''), (''feature'', VFeature (this_feature s))]"
    and f1: "this_feature s1 = Some 0" "this_ispt s1 = (getType point_geom = ''Point'')"
    "get_rotate s1 = get_rotate s0" "handles s1 = handles s"
    by blast
  from drawSketch_frame_ex[OF d] obtain H B where
    "s = s0\<lparr>this_feature := Some 0, this_ispt := (getType point_geom = ''Point''), handles := H,
            this_bbox := B\<rparr>"
    by blast
  with s1 g0 have g1: "store s1 0 = Some point_geom"
    by (simp add: dispatchEvent_def)
  have h: "map m_handle (handles s1) = [Some ''rotate'']"
    using drawSketch_point_handles[OF _ _ d, of 0] pt r0 f1 by simp
  from f1 pt have p1: "this_ispt s1" by simp
  note h2 = drawSketch_center_point[OF f1(1) p1]
  from h0 h1 h2 g1 pt f1 h p1 show ?thesis by simp
qed

text \<open>
  The hypotheses of C5 hold for the point at (3,4) and the centre-only redraw.
\<close>

theorem C5_point_overlay_witness:
  "\<exists>st s1 s2.
      store st 0 = Some point_geom \<and> getType point_geom = ''Point''
    \<and> select st (Some 0) = Some s1 \<and> drawSketch s1 True = Some s2
    \<and> this_ispt s1
    \<and> map m_handle (handles s1) = (if get_rotate st then [Some ''rotate''] else [])
    \<and> map m_handle (handles s2) = []"
proof -
  from point_select obtain st s1 where
    "setMap (constructor no_options point_layer) unit_map = Some st"
    and g0: "store st 0 = Some point_geom" and pt: "getType point_geom = ''Point''"
    and "get_rotate st"
    and h1: "select st (Some 0) = Some s1"
    by blast
  from select_Some_elim[OF h1 g0] pt have "this_feature s1 = Some 0" "this_ispt s1"
    by auto
  from drawSketch_center_point[OF this]
  have h2: "drawSketch s1 True = Some (s1\<lparr>handles := []\<rparr>)" .
  from C5_point_overlay[OF g0 pt h1 h2] g0 pt h1 h2 show ?thesis
    by (intro exI[of _ st] exI[of _ s1] exI[of _ "s1\<lparr>handles := []\<rparr>"]) simp
qed

end
